theory Spec2Isabelle
  imports Complex_Main "HOL-Library.Log_Nat"
begin

section \<open>The experiment harness of \<^verbatim>\<open>main.py\<close>\<close>

text \<open>
  The harness builds one configuration, hands it to an experiment runner, calls the
  runner once for every requested experiment identifier, times each call with
  \<^verbatim>\<open>time.time()\<close>, collects \<^verbatim>\<open>{'completed': True, 'duration': d}\<close> per identifier in
  a dictionary, writes a JSON report and prints a summary.

  Everything the Python does beyond computing values is explicit here: a function
  that has effects takes the world and returns the new one, and a function that can
  raise returns \<open>Inl\<close> of the exception together with the world as it was when the
  exception left the function. The configuration is a Python object that is handed on
  by reference: it lives in a store, and the functions take its address.
\<close>

subsection \<open>Data\<close>

text \<open>
  \<^verbatim>\<open>ForgettingConfig\<close> is imported from \<^verbatim>\<open>experiment_runner\<close>. The harness builds it from
  six keyword arguments and reads the same six attributes back, so the state of such an
  object is a record of these six fields. \<^verbatim>\<open>argparse\<close> gives \<^verbatim>\<open>str\<close>, unbounded \<^verbatim>\<open>int\<close>
  and \<^verbatim>\<open>bool\<close> values. The object itself is an address in the store; as any Python
  object, it can be assigned to by whoever holds it.
\<close>

record config =
  data_path :: string
  output_dir :: string
  num_users :: int
  temporal_split :: bool
  test_days :: int
  seed :: int

type_synonym ref = nat

text \<open>The namespace returned by \<^verbatim>\<open>parse_args\<close>.\<close>

record args =
  arg_data_path :: string
  arg_output_dir :: string
  arg_experiments :: "string list"
  arg_num_users :: int
  arg_temporal_split :: bool
  arg_test_days :: int
  arg_seed :: int

text \<open>
  A reading of \<^verbatim>\<open>time.time()\<close> is a Python float, a double. Every finite double is a
  rational number, and the operations of the harness on readings are one subtraction and
  the conversion to decimal digits; readings and durations are rationals here.
\<close>

type_synonym seconds = rat

text \<open>Rounding to the nearest integer, a tie going to the even one.\<close>

definition round_half_even :: "rat \<Rightarrow> int" where
  "round_half_even x =
     (let n = \<lfloor>x\<rfloor>; r = x - of_int n
      in if r < 1 / 2 then n else if 1 / 2 < r then n + 1 else if even n then n else n + 1)"

text \<open>
  The float subtraction \<^verbatim>\<open>end_time - start_time\<close> gives the double nearest to the exact
  difference, a tie going to the even significand. A double has a significand of 53
  bits: a positive \<open>a\<close> with \<open>2 ^ e \<le> a < 2 ^ (e + 1)\<close> is rounded to a multiple of
  \<open>2 ^ (e - 52)\<close>. (The bounds of the exponent are left out: a difference of two readings
  of the clock neither overflows nor loses bits to the subnormal range.)
\<close>

definition binary_exponent :: "rat \<Rightarrow> int" where
  "binary_exponent a =
     (let (n, d) = quotient_of a; k = bitlen n - bitlen d
      in if 2 powi k \<le> a then k else k - 1)"

definition round_double :: "rat \<Rightarrow> rat" where
  "round_double q =
     (if q = 0 then 0
      else let u = 2 powi (binary_exponent \<bar>q\<bar> - 52)
           in sgn q * of_int (round_half_even (\<bar>q\<bar> / u)) * u)"

definition float_sub :: "seconds \<Rightarrow> seconds \<Rightarrow> seconds" where
  "float_sub a b = round_double (a - b)"

text \<open>The value stored per identifier: \<^verbatim>\<open>{'completed': True, 'duration': duration}\<close>.\<close>

record meta =
  completed :: bool
  duration :: seconds

text \<open>
  A Python \<^verbatim>\<open>dict\<close> keeps its keys in the order of their first insertion. Assigning to a
  key that is present replaces the value where the key stands; assigning to a new key
  appends it.
\<close>

type_synonym ('k, 'v) dict = "('k \<times> 'v) list"

fun dict_set :: "('k, 'v) dict \<Rightarrow> 'k \<Rightarrow> 'v \<Rightarrow> ('k, 'v) dict" where
  "dict_set [] k v = [(k, v)]"
| "dict_set ((k', v') # kvs) k v =
     (if k' = k then (k, v) # kvs else (k', v') # dict_set kvs k v)"

fun dict_get :: "('k, 'v) dict \<Rightarrow> 'k \<Rightarrow> 'v option" where
  "dict_get [] k = None"
| "dict_get ((k', v') # kvs) k = (if k' = k then Some v' else dict_get kvs k)"

definition dict_keys :: "('k, 'v) dict \<Rightarrow> 'k list" where
  "dict_keys d = map fst d"

type_synonym results = "(string, meta) dict"

subsection \<open>Exceptions\<close>

text \<open>
  The harness has no \<^verbatim>\<open>try\<close>, \<^verbatim>\<open>except\<close> or \<^verbatim>\<open>raise\<close> of its own; an exception is raised
  by the runner or by the operating system and travels up through the harness.
\<close>

datatype exception =
    UnknownExperimentError string
  | ExperimentExecutionError string
  | FileExistsError
  | FileNotFoundError
  | IsADirectoryError
  | NotADirectoryError
  | PermissionError
  | NoSpaceLeftError

subsection \<open>The world\<close>

text \<open>
  Records handed to \<^verbatim>\<open>logger.info\<close>, by content. Logging is taken never to raise, and
  the log file is not one of the files below.
\<close>

datatype log_record =
    Starting_application
  | Configuration_is config
  | Starting_experiment string
  | Completed_experiment string seconds
  | Report_saved string
  | All_completed

text \<open>
  The file system, as far as the harness uses it: the directories that exist, the
  regular files with their text, the paths at which the operating system refuses to
  create or write, and how many more characters the device accepts (\<open>None\<close>: no
  limit).
\<close>

record filesystem =
  dirs :: "string set"
  files :: "string \<rightharpoonup> string"
  denied :: "string set"
  room :: "nat option"

text \<open>
  The world: the store \<open>heap\<close> of the configuration objects with the next free address,
  the state \<open>ext\<close> of the runner and of whatever else it touches, the readings
  \<open>wall_clock\<close> that \<^verbatim>\<open>time.time()\<close> returns (the \<open>n\<close>-th call returns \<open>wall_clock n\<close>)
  with the number \<open>time_reads\<close> of calls made so far, the log, the file system as the
  harness uses it and the lines the harness prints. Two lists record the calls of
  \<^verbatim>\<open>runner.run_experiment\<close> made so far: \<open>invoked\<close> has the configuration object that the
  runner holds and the identifier of each call, \<open>observed\<close> has the state in which each
  call finds that object.

  The runner acts on the store and on \<open>ext\<close>: it can assign to the configuration object
  it was given; what it prints and the files it writes are part of \<open>ext\<close>.
\<close>

record 'x world =
  heap :: "ref \<Rightarrow> config"
  next_ref :: ref
  ext :: 'x
  wall_clock :: "nat \<Rightarrow> seconds"
  time_reads :: nat
  invoked :: "(ref \<times> string) list"
  observed :: "config list"
  logged :: "log_record list"
  fs :: filesystem
  stdout :: "string list"

definition logger_info :: "log_record \<Rightarrow> 'x world \<Rightarrow> 'x world" where
  "logger_info r w = w\<lparr>logged := logged w @ [r]\<rparr>"

definition time_time :: "'x world \<Rightarrow> seconds \<times> 'x world" where
  "time_time w = (wall_clock w (time_reads w), w\<lparr>time_reads := Suc (time_reads w)\<rparr>)"

definition print :: "string \<Rightarrow> 'x world \<Rightarrow> 'x world" where
  "print s w = w\<lparr>stdout := stdout w @ [s]\<rparr>"

subsection \<open>The runner\<close>

text \<open>
  \<^verbatim>\<open>ForgettingExperimentRunner\<close> is imported from \<^verbatim>\<open>experiment_runner\<close>; the harness only
  constructs it from the configuration and calls \<^verbatim>\<open>run_experiment\<close> on it. Both are
  parameters: each is given the address of the configuration object, acts on the store
  and on \<open>ext\<close>, and returns a value or raises. The runner object holds the address of
  the configuration it was constructed from.
\<close>

type_synonym 'x runner_state = "(ref \<Rightarrow> config) \<times> 'x"

record ('x, 'p) runner_class =
  construct :: "ref \<Rightarrow> 'x runner_state \<Rightarrow> (exception + unit) \<times> 'x runner_state"
  run_experiment :: "ref \<Rightarrow> string \<Rightarrow> 'x runner_state \<Rightarrow> (exception + 'p) \<times> 'x runner_state"

record runner_object =
  held_config :: ref

definition ForgettingExperimentRunner ::
  "('x, 'p) runner_class \<Rightarrow> ref \<Rightarrow> 'x world \<Rightarrow> (exception + runner_object) \<times> 'x world" where
  "ForgettingExperimentRunner R config w =
     (case construct R config (heap w, ext w) of
        (Inl e, h, x) \<Rightarrow> (Inl e, w\<lparr>heap := h, ext := x\<rparr>)
      | (Inr _, h, x) \<Rightarrow> (Inr \<lparr>held_config = config\<rparr>, w\<lparr>heap := h, ext := x\<rparr>))"

definition call_run_experiment ::
  "('x, 'p) runner_class \<Rightarrow> runner_object \<Rightarrow> string \<Rightarrow> 'x world \<Rightarrow> (exception + 'p) \<times> 'x world" where
  "call_run_experiment R runner experiment w =
     (case run_experiment R (held_config runner) experiment (heap w, ext w) of
        (r, h, x) \<Rightarrow>
          (r, w\<lparr>heap := h, ext := x,
                invoked := invoked w @ [(held_config runner, experiment)],
                observed := observed w @ [heap w (held_config runner)]\<rparr>))"

subsection \<open>\<^verbatim>\<open>run_experiments\<close>\<close>

text \<open>
  The body of the \<^verbatim>\<open>for\<close> loop, for the identifiers still to run and the dictionary
  \<^verbatim>\<open>results\<close> built so far. The call of the runner stands between the two clock
  readings with nothing around it: when it raises, the exception leaves the loop and
  the function, and \<^verbatim>\<open>results\<close> is lost with the frame.
\<close>

fun run_loop ::
  "('x, 'p) runner_class \<Rightarrow> runner_object \<Rightarrow> string list \<Rightarrow> results \<Rightarrow> 'x world
     \<Rightarrow> (exception + results) \<times> 'x world" where
  "run_loop R runner [] results w = (Inr results, w)"
| "run_loop R runner (experiment # rest) results w =
     (let w1 = logger_info (Starting_experiment experiment) w;
          (start_time, w2) = time_time w1;
          (r, w3) = call_run_experiment R runner experiment w2
      in case r of
           Inl e \<Rightarrow> (Inl e, w3)
         | Inr experiment_results \<Rightarrow>
            (let (end_time, w4) = time_time w3;
                 duration = float_sub end_time start_time;
                 w5 = logger_info (Completed_experiment experiment duration) w4
             in run_loop R runner rest
                  (dict_set results experiment \<lparr>completed = True, duration = duration\<rparr>) w5))"

definition run_experiments ::
  "('x, 'p) runner_class \<Rightarrow> ref \<Rightarrow> string list \<Rightarrow> 'x world
     \<Rightarrow> (exception + results) \<times> 'x world" where
  "run_experiments R config experiments w =
     (case ForgettingExperimentRunner R config w of
        (Inl e, w1) \<Rightarrow> (Inl e, w1)
      | (Inr runner, w1) \<Rightarrow> run_loop R runner experiments [] w1)"

subsection \<open>Text\<close>

definition digit :: "nat \<Rightarrow> char" where
  "digit n = char_of (48 + n)"

text \<open>The decimal digits of a natural number, as \<^verbatim>\<open>str\<close> of a Python \<^verbatim>\<open>int\<close> gives them.\<close>

fun decimal :: "nat \<Rightarrow> string" where
  "decimal n = (if n < 10 then [digit n] else decimal (n div 10) @ [digit (n mod 10)])"

declare decimal.simps [simp del]

definition int_repr :: "int \<Rightarrow> string" where
  "int_repr i = (if i < 0 then CHR ''-'' # decimal (nat (- i)) else decimal (nat i))"

text \<open>
  \<^verbatim>\<open>{x:.2f}\<close>: the exact value of the float, rounded to two decimals with ties to the
  even digit, and a minus sign whenever the float is negative (\<^verbatim>\<open>-0.001\<close> gives
  \<^verbatim>\<open>-0.00\<close>).
\<close>

definition format_2f :: "seconds \<Rightarrow> string" where
  "format_2f x =
     (let n = nat (round_half_even (\<bar>x\<bar> * 100))
      in (if x < 0 then [CHR ''-''] else []) @ decimal (n div 100) @ [CHR ''.'']
           @ [digit (n mod 100 div 10), digit (n mod 10)])"

subsection \<open>JSON text, as \<^verbatim>\<open>json.dump(obj, f, indent=4)\<close> writes it\<close>

text \<open>
  The values the report is made of. A Python \<^verbatim>\<open>str\<close> is a list of code points; the
  model has the code points below 256. \<^verbatim>\<open>json\<close> writes a string between double quotes,
  with a backslash before a quote and a backslash, the short escapes for backspace,
  tab, newline, form feed and return, and \<^verbatim>\<open>\u00XX\<close> for every other code point outside
  the printable ASCII range (\<^verbatim>\<open>ensure_ascii\<close> is on by default).
\<close>

datatype json =
    JString string
  | JInt int
  | JFloat seconds
  | JBool bool
  | JObject "(string \<times> json) list"

definition hexdigit :: "nat \<Rightarrow> char" where
  "hexdigit n = (if n < 10 then char_of (48 + n) else char_of (87 + n))"

definition escape_char :: "char \<Rightarrow> string" where
  "escape_char c =
     (if c = CHR 0x22 then [CHR 0x5C, CHR 0x22]
      else if c = CHR 0x5C then [CHR 0x5C, CHR 0x5C]
      else if c = CHR 0x0A then [CHR 0x5C, CHR ''n'']
      else if c = CHR 0x0D then [CHR 0x5C, CHR ''r'']
      else if c = CHR 0x09 then [CHR 0x5C, CHR ''t'']
      else if c = CHR 0x08 then [CHR 0x5C, CHR ''b'']
      else if c = CHR 0x0C then [CHR 0x5C, CHR ''f'']
      else if (of_char c :: nat) < 32 \<or> 126 < (of_char c :: nat)
        then [CHR 0x5C, CHR ''u'', CHR ''0'', CHR ''0'',
              hexdigit (of_char c div 16), hexdigit (of_char c mod 16)]
      else [c])"

definition json_string :: "string \<Rightarrow> string" where
  "json_string s = CHR 0x22 # concat (map escape_char s) @ [CHR 0x22]"

definition newline_indent :: "nat \<Rightarrow> string" where
  "newline_indent level = CHR 0x0A # replicate (4 * level) CHR '' ''"

text \<open>
  \<open>float_repr\<close> is \<^verbatim>\<open>float.__repr__\<close>, the shortest decimal text that reads back as the
  same float; it is a parameter.
\<close>

fun json_text :: "(seconds \<Rightarrow> string) \<Rightarrow> nat \<Rightarrow> json \<Rightarrow> string"
  and json_members :: "(seconds \<Rightarrow> string) \<Rightarrow> nat \<Rightarrow> (string \<times> json) list \<Rightarrow> string" where
  "json_text float_repr level (JString s) = json_string s"
| "json_text float_repr level (JInt i) = int_repr i"
| "json_text float_repr level (JFloat x) = float_repr x"
| "json_text float_repr level (JBool b) = (if b then ''true'' else ''false'')"
| "json_text float_repr level (JObject []) = ''{}''"
| "json_text float_repr level (JObject (kv # kvs)) =
     ''{'' @ newline_indent (Suc level) @ json_members float_repr (Suc level) (kv # kvs)
       @ newline_indent level @ ''}''"
| "json_members float_repr level [] = []"
| "json_members float_repr level [(k, v)] =
     json_string k @ '': '' @ json_text float_repr level v"
| "json_members float_repr level ((k, v) # kv # kvs) =
     json_string k @ '': '' @ json_text float_repr level v @ '','' @ newline_indent level
       @ json_members float_repr level (kv # kvs)"

subsection \<open>Paths and files\<close>

text \<open>\<^verbatim>\<open>os.path.join\<close> and \<^verbatim>\<open>os.path.dirname\<close> of \<^verbatim>\<open>posixpath\<close>.\<close>

definition os_path_join :: "string \<Rightarrow> string \<Rightarrow> string" where
  "os_path_join a b =
     (if b \<noteq> [] \<and> hd b = CHR ''/'' then b
      else if a = [] \<or> last a = CHR ''/'' then a @ b
      else a @ CHR ''/'' # b)"

definition rstrip_sep :: "string \<Rightarrow> string" where
  "rstrip_sep s = rev (dropWhile (\<lambda>c. c = CHR ''/'') (rev s))"

definition dirname :: "string \<Rightarrow> string" where
  "dirname p =
     (let head = rev (dropWhile (\<lambda>c. c \<noteq> CHR ''/'') (rev p))
      in if head \<noteq> [] \<and> \<not> list_all (\<lambda>c. c = CHR ''/'') head then rstrip_sep head else head)"

text \<open>The directories above a path: its prefixes that end before a separator.\<close>

definition ancestors :: "string \<Rightarrow> string list" where
  "ancestors p = [take i p. i \<leftarrow> [1..<length p], p ! i = CHR ''/'']"

text \<open>
  \<^verbatim>\<open>os.makedirs(name, exist_ok=True)\<close>, from its documentation: it creates the directory
  and the directories above it that are missing; a directory that is already there
  is no error; a regular file in its place is one. A call that raises is taken to leave
  the file system as it was.
\<close>

definition os_makedirs_exist_ok :: "filesystem \<Rightarrow> string \<Rightarrow> exception + filesystem" where
  "os_makedirs_exist_ok f name =
     (if name = [] then Inl FileNotFoundError
      else if name \<in> dirs f then Inr f
      else if files f name \<noteq> None then Inl FileExistsError
      else if list_ex (\<lambda>a. files f a \<noteq> None) (ancestors name) then Inl NotADirectoryError
      else if list_ex (\<lambda>a. a \<notin> dirs f \<and> a \<in> denied f) (name # ancestors name)
        then Inl PermissionError
      else Inr (f\<lparr>dirs := dirs f \<union> set (name # ancestors name)\<rparr>))"

text \<open>
  \<^verbatim>\<open>open(path, 'w')\<close>: the file is created, or emptied when it exists, at the moment it is
  opened.
\<close>

definition open_w :: "filesystem \<Rightarrow> string \<Rightarrow> exception + filesystem" where
  "open_w f path =
     (if path \<in> dirs f then Inl IsADirectoryError
      else if dirname path \<noteq> [] \<and> dirname path \<notin> dirs f then Inl FileNotFoundError
      else if path \<in> denied f then Inl PermissionError
      else Inr (f\<lparr>files := (files f)(path \<mapsto> [])\<rparr>))"

text \<open>
  Writing text to the open file and closing it: the device takes the characters it
  has room for; when that is not all of them the write raises and the file keeps
  what was taken.
\<close>

definition write_close :: "filesystem \<Rightarrow> string \<Rightarrow> string \<Rightarrow> (exception + unit) \<times> filesystem" where
  "write_close f path text =
     (let old = (case files f path of None \<Rightarrow> [] | Some t \<Rightarrow> t)
      in case room f of
           None \<Rightarrow> (Inr (), f\<lparr>files := (files f)(path \<mapsto> old @ text)\<rparr>)
         | Some n \<Rightarrow>
             if length text \<le> n
             then (Inr (), f\<lparr>files := (files f)(path \<mapsto> old @ text), room := Some (n - length text)\<rparr>)
             else (Inl NoSpaceLeftError,
                   f\<lparr>files := (files f)(path \<mapsto> old @ take n text), room := Some 0\<rparr>))"

subsection \<open>\<^verbatim>\<open>generate_report\<close>\<close>

definition report :: "config \<Rightarrow> results \<Rightarrow> json" where
  "report config experiment_results =
     JObject
       [(''configuration'',
           JObject
             [(''data_path'', JString (data_path config)),
              (''output_dir'', JString (output_dir config)),
              (''num_users'', JInt (num_users config)),
              (''temporal_split'', JBool (temporal_split config)),
              (''test_days'', JInt (test_days config)),
              (''seed'', JInt (seed config))]),
        (''experiments'',
           JObject
             (map (\<lambda>(experiment, results).
                     (experiment,
                      JObject [(''completed'', JBool (completed results)),
                               (''duration'', JFloat (duration results))]))
                experiment_results))]"

definition summary_line :: "string \<Rightarrow> meta \<Rightarrow> string" where
  "summary_line experiment results =
     ''- '' @ experiment @ '': '' @ (if completed results then ''Completed'' else ''Failed'')
       @ '' in '' @ format_2f (duration results) @ '' seconds''"

text \<open>
  The function reads the six attributes of the configuration object as they are when it
  is called.
\<close>

definition generate_report ::
  "(seconds \<Rightarrow> string) \<Rightarrow> ref \<Rightarrow> results \<Rightarrow> 'x world \<Rightarrow> (exception + unit) \<times> 'x world" where
  "generate_report float_repr config experiment_results w =
     (let report_path = os_path_join (output_dir (heap w config)) ''experiment_report.json''
      in case open_w (fs w) report_path of
           Inl e \<Rightarrow> (Inl e, w)
         | Inr f1 \<Rightarrow>
            (case write_close f1 report_path
                    (json_text float_repr 0 (report (heap w config) experiment_results)) of
               (Inl e, f2) \<Rightarrow> (Inl e, w\<lparr>fs := f2\<rparr>)
             | (Inr _, f2) \<Rightarrow>
                (let w1 = logger_info (Report_saved report_path) (w\<lparr>fs := f2\<rparr>);
                     w2 = print (CHR 0x0A # ''===== Experiment Summary ====='') w1;
                     w3 = fold (\<lambda>(experiment, results). print (summary_line experiment results))
                            experiment_results w2;
                     w4 = print (''=============================='' @ [CHR 0x0A]) w3
                 in (Inr (), w4))))"

subsection \<open>\<^verbatim>\<open>main\<close>\<close>

text \<open>\<^verbatim>\<open>ForgettingConfig(...)\<close> makes a new object with the six attributes.\<close>

definition ForgettingConfig :: "config \<Rightarrow> 'x world \<Rightarrow> ref \<times> 'x world" where
  "ForgettingConfig attributes w =
     (next_ref w, w\<lparr>heap := (heap w)(next_ref w := attributes), next_ref := Suc (next_ref w)\<rparr>)"

definition main ::
  "('x, 'p) runner_class \<Rightarrow> (seconds \<Rightarrow> string) \<Rightarrow> args \<Rightarrow> 'x world
     \<Rightarrow> (exception + unit) \<times> 'x world" where
  "main R float_repr args w =
     (let w1 = logger_info Starting_application w
      in case os_makedirs_exist_ok (fs w1) (arg_output_dir args) of
           Inl e \<Rightarrow> (Inl e, w1)
         | Inr f \<Rightarrow>
            (let (config, w2) =
                   ForgettingConfig
                     \<lparr>data_path = arg_data_path args,
                      output_dir = arg_output_dir args,
                      num_users = arg_num_users args,
                      temporal_split = arg_temporal_split args,
                      test_days = arg_test_days args,
                      seed = arg_seed args\<rparr>
                     (w1\<lparr>fs := f\<rparr>);
                 w3 = logger_info (Configuration_is (heap w2 config)) w2
             in case run_experiments R config (arg_experiments args) w3 of
                  (Inl e, w4) \<Rightarrow> (Inl e, w4)
                | (Inr experiment_results, w4) \<Rightarrow>
                   (case generate_report float_repr config experiment_results w4 of
                      (Inl e, w5) \<Rightarrow> (Inl e, w5)
                    | (Inr _, w5) \<Rightarrow> (Inr (), logger_info All_completed w5))))"

section \<open>Notions used to state the properties\<close>

text \<open>The elements of a list in the order of their first occurrence.\<close>

fun first_occurrences :: "'a list \<Rightarrow> 'a list" where
  "first_occurrences [] = []"
| "first_occurrences (x # xs) = x # removeAll x (first_occurrences xs)"

text \<open>
  The dictionary that the loop builds when no call raises, as a function of the clock:
  the occurrence at position \<open>i\<close> of the request is timed by the readings \<open>t + 2 * i\<close>
  and \<open>t + 2 * i + 1\<close>.
\<close>

fun recorded :: "(nat \<Rightarrow> seconds) \<Rightarrow> nat \<Rightarrow> string list \<Rightarrow> results \<Rightarrow> results" where
  "recorded clock t [] res = res"
| "recorded clock t (x # xs) res =
     recorded clock (t + 2) xs
       (dict_set res x \<lparr>completed = True, duration = float_sub (clock (Suc t)) (clock t)\<rparr>)"

text \<open>Member lookup in a JSON object, as \<^verbatim>\<open>doc[key]\<close> after \<^verbatim>\<open>json.load\<close>.\<close>

fun json_get :: "json \<Rightarrow> string \<Rightarrow> json option" where
  "json_get (JObject kvs) key = dict_get kvs key"
| "json_get _ key = None"

subsection \<open>Reading JSON text\<close>

text \<open>
  The harness never reads the report back; what re-reading the file yields is stated with
  a reader for JSON text in the manner of \<^verbatim>\<open>json.load\<close>, for the values of type \<open>json\<close>:
  a lexer for punctuation, strings with their escapes, number tokens, \<^verbatim>\<open>true\<close> and
  \<^verbatim>\<open>false\<close>, and a parser for values and objects. A number token that is an integer
  literal gives an \<^verbatim>\<open>int\<close>, any other goes to \<open>float_parse\<close>, the reading of float
  literals, which is a parameter as \<open>float_repr\<close> is. An object is built as a \<^verbatim>\<open>dict\<close>: a
  key that comes again replaces the earlier value.
\<close>

datatype token = LBrace | RBrace | Colon | Comma | TString string | TNumber string | TTrue | TFalse

definition unhex :: "char \<Rightarrow> nat option" where
  "unhex c =
     (let n = (of_char c :: nat)
      in if 48 \<le> n \<and> n \<le> 57 then Some (n - 48)
         else if 97 \<le> n \<and> n \<le> 102 then Some (n - 87)
         else if 65 \<le> n \<and> n \<le> 70 then Some (n - 55)
         else None)"

definition unhex4 :: "char \<Rightarrow> char \<Rightarrow> char \<Rightarrow> char \<Rightarrow> nat option" where
  "unhex4 a b c d =
     (case (unhex a, unhex b, unhex c, unhex d) of
        (Some x, Some y, Some z, Some u) \<Rightarrow> Some (4096 * x + 256 * y + 16 * z + u)
      | _ \<Rightarrow> None)"

definition unescape :: "char \<Rightarrow> char option" where
  "unescape e =
     (if e = CHR 0x22 then Some (CHR 0x22)
      else if e = CHR 0x5C then Some (CHR 0x5C)
      else if e = CHR ''/'' then Some (CHR ''/'')
      else if e = CHR ''b'' then Some (CHR 0x08)
      else if e = CHR ''f'' then Some (CHR 0x0C)
      else if e = CHR ''n'' then Some (CHR 0x0A)
      else if e = CHR ''r'' then Some (CHR 0x0D)
      else if e = CHR ''t'' then Some (CHR 0x09)
      else None)"

fun lex_string :: "string \<Rightarrow> (string \<times> string) option" where
  "lex_string [] = None"
| "lex_string (c # cs) =
     (if c = CHR 0x22 then Some ([], cs)
      else if c = CHR 0x5C then
        (case cs of
           [] \<Rightarrow> None
         | e # cs' \<Rightarrow>
            if e = CHR ''u'' then
              (case cs' of
                 h1 # h2 # h3 # h4 # cs'' \<Rightarrow>
                   (case unhex4 h1 h2 h3 h4 of
                      None \<Rightarrow> None
                    | Some n \<Rightarrow>
                        if n < 256
                        then map_option (\<lambda>(s, r). (char_of n # s, r)) (lex_string cs'')
                        else None)
               | _ \<Rightarrow> None)
            else
              (case unescape e of
                 None \<Rightarrow> None
               | Some d \<Rightarrow> map_option (\<lambda>(s, r). (d # s, r)) (lex_string cs')))
      else if (of_char c :: nat) < 32 then None
      else map_option (\<lambda>(s, r). (c # s, r)) (lex_string cs))"

definition is_number_char :: "char \<Rightarrow> bool" where
  "is_number_char c \<longleftrightarrow>
     (let n = (of_char c :: nat)
      in (48 \<le> n \<and> n \<le> 57) \<or> n = 43 \<or> n = 45 \<or> n = 46 \<or> n = 101 \<or> n = 69)"

definition is_space :: "char \<Rightarrow> bool" where
  "is_space c \<longleftrightarrow> c = CHR '' '' \<or> c = CHR 0x0A \<or> c = CHR 0x0D \<or> c = CHR 0x09"

text \<open>The rest after a string literal is shorter than the input, so that the lexer terminates.\<close>

lemma lex_string_shorter: "lex_string cs = Some (s, r) \<Longrightarrow> length r < length cs"
proof (induction "length cs" arbitrary: cs s r rule: less_induct)
  case less
  show ?case
  proof (cases cs)
    case Nil
    with less.prems show ?thesis by simp
  next
    case (Cons c cs')
    have ih: "length r' < length cs''"
      if "lex_string cs'' = Some (s', r')" "length cs'' < length cs" for cs'' s' r'
      using less.hyps[OF that(2) that(1)] .
    from less.prems show ?thesis
      unfolding Cons
      by (auto split: if_splits list.splits option.splits dest!: ih simp: Cons)
  qed
qed

function lex :: "string \<Rightarrow> token list option" where
  "lex [] = Some []"
| "lex (c # cs) =
     (if is_space c then lex cs
      else if c = CHR ''{'' then map_option (Cons LBrace) (lex cs)
      else if c = CHR ''}'' then map_option (Cons RBrace) (lex cs)
      else if c = CHR '':'' then map_option (Cons Colon) (lex cs)
      else if c = CHR '','' then map_option (Cons Comma) (lex cs)
      else if c = CHR 0x22 then
        (case lex_string cs of
           None \<Rightarrow> None
         | Some (s, r) \<Rightarrow> map_option (Cons (TString s)) (lex r))
      else if is_number_char c then
        map_option (Cons (TNumber (c # takeWhile is_number_char cs)))
          (lex (dropWhile is_number_char cs))
      else if take 4 (c # cs) = ''true'' then map_option (Cons TTrue) (lex (drop 3 cs))
      else if take 5 (c # cs) = ''false'' then map_option (Cons TFalse) (lex (drop 4 cs))
      else None)"
  by pat_completeness auto

termination
  by (relation "measure length")
     (auto simp: length_dropWhile_le less_Suc_eq_le dest: lex_string_shorter)

text \<open>Number tokens.\<close>

definition undecimal :: "string \<Rightarrow> nat" where
  "undecimal ds = foldl (\<lambda>n c. 10 * n + (of_char c - 48)) 0 ds"

definition int_of_token :: "string \<Rightarrow> int option" where
  "int_of_token t =
     (if t = ''-0'' then Some 0
      else let i = (case t of
                      [] \<Rightarrow> 0
                    | c # ds \<Rightarrow> if c = CHR ''-'' then - int (undecimal ds)
                               else int (undecimal (c # ds)))
           in if int_repr i = t then Some i else None)"

definition number_value :: "(string \<Rightarrow> seconds option) \<Rightarrow> string \<Rightarrow> json option" where
  "number_value float_parse t =
     (case int_of_token t of
        Some i \<Rightarrow> Some (JInt i)
      | None \<Rightarrow> map_option JFloat (float_parse t))"

definition object_of :: "(string \<times> json) list \<Rightarrow> json" where
  "object_of kvs = JObject (foldl (\<lambda>d (k, v). dict_set d k v) [] kvs)"

text \<open>
  The parser, with a bound on the number of nested calls; \<open>json_loads\<close> gives it more
  than the number of tokens, which is enough for every document (\<open>parse_tokens\<close> below
  shows it for the documents that \<open>json_text\<close> writes).
\<close>

fun parse_value :: "(string \<Rightarrow> seconds option) \<Rightarrow> nat \<Rightarrow> token list \<Rightarrow> (json \<times> token list) option"
  and parse_members ::
    "(string \<Rightarrow> seconds option) \<Rightarrow> nat \<Rightarrow> token list \<Rightarrow> ((string \<times> json) list \<times> token list) option"
  where
  "parse_value fp 0 ts = None"
| "parse_value fp (Suc n) [] = None"
| "parse_value fp (Suc n) (TString s # ts) = Some (JString s, ts)"
| "parse_value fp (Suc n) (TNumber t # ts) = map_option (\<lambda>v. (v, ts)) (number_value fp t)"
| "parse_value fp (Suc n) (TTrue # ts) = Some (JBool True, ts)"
| "parse_value fp (Suc n) (TFalse # ts) = Some (JBool False, ts)"
| "parse_value fp (Suc n) (LBrace # RBrace # ts) = Some (JObject [], ts)"
| "parse_value fp (Suc n) (LBrace # ts) =
     map_option (\<lambda>(kvs, ts'). (object_of kvs, ts')) (parse_members fp n ts)"
| "parse_value fp (Suc n) (_ # ts) = None"
| "parse_members fp 0 ts = None"
| "parse_members fp (Suc n) (TString k # Colon # ts) =
     (case parse_value fp n ts of
        Some (v, Comma # ts') \<Rightarrow>
          map_option (\<lambda>(kvs, ts''). ((k, v) # kvs, ts'')) (parse_members fp n ts')
      | Some (v, RBrace # ts') \<Rightarrow> Some ([(k, v)], ts')
      | _ \<Rightarrow> None)"
| "parse_members fp (Suc n) ts = None"

definition json_loads :: "(string \<Rightarrow> seconds option) \<Rightarrow> string \<Rightarrow> json option" where
  "json_loads float_parse s =
     (case lex s of
        None \<Rightarrow> None
      | Some ts \<Rightarrow>
         (case parse_value float_parse (Suc (length ts)) ts of
            Some (v, []) \<Rightarrow> Some v
          | _ \<Rightarrow> None))"


subsection \<open>Concrete runs\<close>

text \<open>The defaults of \<^verbatim>\<open>parse_args\<close>.\<close>

definition default_args :: args where
  "default_args =
     \<lparr>arg_data_path = ''./ml-100k'', arg_output_dir = ''./results'',
      arg_experiments =
        [''baseline_comparison'', ''temporal_evaluation'', ''parameter_sensitivity'',
         ''privacy_impact'', ''scalability_test'', ''user_segmentation''],
      arg_num_users = 50, arg_temporal_split = False, arg_test_days = 30, arg_seed = 42\<rparr>"

definition default_config :: config where
  "default_config =
     \<lparr>data_path = ''./ml-100k'', output_dir = ''./results'', num_users = 50,
      temporal_split = False, test_days = 30, seed = 42\<rparr>"

definition empty_disk :: filesystem where
  "empty_disk = \<lparr>dirs = {}, files = Map.empty, denied = {}, room = None\<rparr>"

text \<open>
  A world whose clock advances by one second at every reading, and in which the
  configuration object at every address has the default attributes.
\<close>

definition start_world :: "unit world" where
  "start_world =
     \<lparr>heap = (\<lambda>r. default_config), next_ref = 0, ext = (),
      wall_clock = (\<lambda>n. of_nat n), time_reads = 0, invoked = [], observed = [], logged = [],
      fs = empty_disk, stdout = []\<rparr>"

text \<open>
  A runner whose experiments all return, one that raises in one experiment, and one whose
  experiments assign to an attribute of the configuration they were given.
\<close>

definition obliging_runner :: "(unit, unit) runner_class" where
  "obliging_runner =
     \<lparr>construct = (\<lambda>config s. (Inr (), s)),
      run_experiment = (\<lambda>config experiment s. (Inr (), s))\<rparr>"

definition breaking_runner :: "string \<Rightarrow> (unit, unit) runner_class" where
  "breaking_runner bad =
     \<lparr>construct = (\<lambda>config s. (Inr (), s)),
      run_experiment = (\<lambda>config experiment s.
         if experiment = bad then (Inl (ExperimentExecutionError experiment), s)
         else (Inr (), s))\<rparr>"

definition meddling_runner :: "(unit, unit) runner_class" where
  "meddling_runner =
     \<lparr>construct = (\<lambda>config s. (Inr (), s)),
      run_experiment = (\<lambda>config experiment (h, x).
         (Inr (), h(config := (h config)\<lparr>num_users := 0\<rparr>), x))\<rparr>"

text \<open>A runner leaves the configuration object alone when none of its calls changes it.\<close>

definition leaves_configuration :: "('x, 'p) runner_class \<Rightarrow> ref \<Rightarrow> bool" where
  "leaves_configuration R config \<longleftrightarrow>
     (\<forall>s. fst (snd (construct R config s)) config = fst s config) \<and>
     (\<forall>experiment s. fst (snd (run_experiment R config experiment s)) config = fst s config)"

text \<open>A clock that is set back after its first reading.\<close>

definition clock_set_back :: "nat \<Rightarrow> seconds" where
  "clock_set_back n = (if n = 0 then 10 else 5)"

subsection \<open>The registry\<close>

text \<open>
  Modelled from the spec: the Experiment Registry and the answer of the Runner Adapter to
  an identifier outside it. The module \<^verbatim>\<open>experiment_runner\<close> is not among the sources.
  The spec has the registry as ``the fixed set of known experiment identifiers'', the six
  that \<^verbatim>\<open>--experiments\<close> defaults to, and says of the adapter: ``Unknown
  \<^verbatim>\<open>experiment_id\<close>: fails with an \<^verbatim>\<open>UnknownExperimentError\<close>''.
\<close>

definition known_experiments :: "string list" where
  "known_experiments =
     [''baseline_comparison'', ''temporal_evaluation'', ''parameter_sensitivity'',
      ''privacy_impact'', ''scalability_test'', ''user_segmentation'']"

text \<open>
  Modelled from the spec: the Runner Adapter's ``Unknown \<^verbatim>\<open>experiment_id\<close>: fails with an
  \<^verbatim>\<open>UnknownExperimentError\<close>'', in front of a runner \<open>R\<close> for the known identifiers.
\<close>

definition with_registry :: "('x, 'p) runner_class \<Rightarrow> ('x, 'p) runner_class" where
  "with_registry R =
     R\<lparr>run_experiment := (\<lambda>config experiment s.
          if experiment \<in> set known_experiments then run_experiment R config experiment s
          else (Inl (UnknownExperimentError experiment), s))\<rparr>"

subsection \<open>Notions for the round trip\<close>

text \<open>The tokens of the text of a document.\<close>

fun tokens :: "(seconds \<Rightarrow> string) \<Rightarrow> json \<Rightarrow> token list"
  and member_tokens :: "(seconds \<Rightarrow> string) \<Rightarrow> (string \<times> json) list \<Rightarrow> token list" where
  "tokens fr (JString s) = [TString s]"
| "tokens fr (JInt i) = [TNumber (int_repr i)]"
| "tokens fr (JFloat x) = [TNumber (fr x)]"
| "tokens fr (JBool b) = [if b then TTrue else TFalse]"
| "tokens fr (JObject kvs) = LBrace # member_tokens fr kvs @ [RBrace]"
| "member_tokens fr [] = []"
| "member_tokens fr [(k, v)] = TString k # Colon # tokens fr v"
| "member_tokens fr ((k, v) # kv # kvs) =
     TString k # Colon # tokens fr v @ Comma # member_tokens fr (kv # kvs)"

text \<open>
  What is needed of \<^verbatim>\<open>float.__repr__\<close> and of the reading of float literals at a value
  \<open>x\<close>: the text written for \<open>x\<close> is a number token that is not an integer literal, and
  reading it gives \<open>x\<close> back.
\<close>

definition float_token_ok :: "(seconds \<Rightarrow> string) \<Rightarrow> (string \<Rightarrow> seconds option) \<Rightarrow> seconds \<Rightarrow> bool" where
  "float_token_ok fr fp x \<longleftrightarrow>
     fr x \<noteq> [] \<and> list_all is_number_char (fr x) \<and> int_of_token (fr x) = None \<and> fp (fr x) = Some x"

text \<open>Documents whose floats are such and whose objects have distinct keys.\<close>

fun wf_json :: "(seconds \<Rightarrow> string) \<Rightarrow> (string \<Rightarrow> seconds option) \<Rightarrow> json \<Rightarrow> bool"
  and wf_members ::
    "(seconds \<Rightarrow> string) \<Rightarrow> (string \<Rightarrow> seconds option) \<Rightarrow> (string \<times> json) list \<Rightarrow> bool" where
  "wf_json fr fp (JFloat x) = float_token_ok fr fp x"
| "wf_json fr fp (JObject kvs) = (distinct (map fst kvs) \<and> wf_members fr fp kvs)"
| "wf_json fr fp _ = True"
| "wf_members fr fp [] = True"
| "wf_members fr fp ((k, v) # kvs) = (wf_json fr fp v \<and> wf_members fr fp kvs)"

text \<open>A float text and its reading for runs in which every duration is one second.\<close>

definition one_second_repr :: "seconds \<Rightarrow> string" where
  "one_second_repr x = ''1.0''"


text \<open>
  A float text and its reading for durations that are whole numbers of seconds:
  \<^verbatim>\<open>repr(9.0)\<close> is \<^verbatim>\<open>'9.0'\<close>.
\<close>

definition whole_seconds_repr :: "seconds \<Rightarrow> string" where
  "whole_seconds_repr x = decimal (nat \<lfloor>x\<rfloor>) @ ''.0''"

definition whole_seconds_parse :: "string \<Rightarrow> seconds option" where
  "whole_seconds_parse t =
     (let n = undecimal (butlast (butlast t))
      in if t = decimal n @ ''.0'' then Some (of_nat n) else None)"

section \<open>Properties\<close>

subsection \<open>Dictionaries\<close>

lemma dict_get_dict_set:
  "dict_get (dict_set d k v) k' = (if k' = k then Some v else dict_get d k')"
  by (induction d) auto

lemma dict_keys_dict_set:
  "dict_keys (dict_set d k v) = (if k \<in> set (dict_keys d) then dict_keys d else dict_keys d @ [k])"
  by (induction d) (auto simp: dict_keys_def rev_image_eqI)

lemma set_dict_set: "set (dict_set d k v) \<subseteq> insert (k, v) (set d)"
  by (induction d) (auto split: if_splits)

lemma dict_get_Some_iff:
  "distinct (dict_keys d) \<Longrightarrow> dict_get d k = Some v \<longleftrightarrow> (k, v) \<in> set d"
  by (induction d) (auto simp: dict_keys_def rev_image_eqI split: if_splits)

subsection \<open>The float subtraction\<close>

lemma round_half_even_nonneg: "0 \<le> x \<Longrightarrow> 0 \<le> round_half_even x"
  by (auto simp: round_half_even_def Let_def)

lemma round_double_nonneg: "0 \<le> q \<Longrightarrow> 0 \<le> round_double q"
  by (auto simp: round_double_def Let_def round_half_even_nonneg)

lemma float_sub_nonneg: "b \<le> a \<Longrightarrow> 0 \<le> float_sub a b"
  by (simp add: float_sub_def round_double_nonneg)

text \<open>
  Differences that are doubles are kept, and one that is not is rounded: between the
  readings \<open>(2 ^ 53 - 1) / 2 ^ 56\<close> and \<open>1 / 4\<close> the exact difference is \<open>1 / 8 + 1 / 2 ^ 56\<close>,
  and the duration recorded is \<open>1 / 8\<close>.
\<close>

lemma float_sub_values:
  "float_sub 1 0 = 1" "float_sub 3 2 = 1" "float_sub 5 4 = 1" "float_sub 7 6 = 1"
  "float_sub 9 8 = 1" "float_sub 11 10 = 1" "float_sub 5 10 = - 5"
  "float_sub 9 4 = 5" "float_sub 25 16 = 9"
  "float_sub (1 / 8) 0 = 1 / 8" "float_sub (9 / 8) (1 / 2) = 5 / 8"
  "float_sub (25 / 8) 2 = 9 / 8"
  "float_sub (1 / 4) (9007199254740991 / 2 ^ 56) = 1 / 8"
  by code_simp+

subsection \<open>The loop\<close>

lemma run_loop_returns:
  "run_loop R r xs res w = (Inr res', w') \<Longrightarrow>
     res' = recorded (wall_clock w) (time_reads w) xs res \<and>
     invoked w' = invoked w @ map (Pair (held_config r)) xs \<and>
     time_reads w' = time_reads w + 2 * length xs \<and>
     wall_clock w' = wall_clock w \<and> fs w' = fs w \<and> stdout w' = stdout w \<and>
     (heap w', ext w')
       = foldl (\<lambda>s x. snd (run_experiment R (held_config r) x s)) (heap w, ext w) xs"
proof (induction xs arbitrary: res w)
  case Nil
  then show ?case by simp
next
  case (Cons x xs)
  let ?d = "float_sub (wall_clock w (Suc (time_reads w))) (wall_clock w (time_reads w))"
  from Cons.prems obtain w1 where
    step: "run_loop R r xs (dict_set res x \<lparr>completed = True, duration = ?d\<rparr>) w1 = (Inr res', w')" and
    w1: "invoked w1 = invoked w @ [(held_config r, x)]" "time_reads w1 = time_reads w + 2"
        "wall_clock w1 = wall_clock w" "fs w1 = fs w" "stdout w1 = stdout w"
        "(heap w1, ext w1) = snd (run_experiment R (held_config r) x (heap w, ext w))"
    by (auto simp: Let_def time_time_def call_run_experiment_def logger_info_def
          split: prod.splits sum.splits)
  from Cons.IH[OF step] w1 show ?case by simp
qed

lemma run_loop_append:
  "run_loop R r (xs @ ys) res w =
     (case run_loop R r xs res w of
        (Inl e, w') \<Rightarrow> (Inl e, w')
      | (Inr res', w') \<Rightarrow> run_loop R r ys res' w')"
  by (induction xs arbitrary: res w)
     (auto simp: Let_def split: prod.splits sum.splits)

lemma run_loop_raises_at_head:
  assumes "fst (run_experiment R (held_config r) x (heap w, ext w)) = Inl e"
  shows "fst (run_loop R r (x # xs) res w) = Inl e"
    and "invoked (snd (run_loop R r (x # xs) res w)) = invoked w @ [(held_config r, x)]"
    and "fs (snd (run_loop R r (x # xs) res w)) = fs w"
    and "stdout (snd (run_loop R r (x # xs) res w)) = stdout w"
  using assms
  by (auto simp: Let_def time_time_def call_run_experiment_def logger_info_def
        split: prod.splits sum.splits)

lemma construct_frame:
  assumes "ForgettingExperimentRunner R config w = (r, w1)"
  shows "invoked w1 = invoked w" "time_reads w1 = time_reads w" "wall_clock w1 = wall_clock w"
    "fs w1 = fs w" "stdout w1 = stdout w" "logged w1 = logged w" "observed w1 = observed w"
    "(heap w1, ext w1) = snd (construct R config (heap w, ext w))"
    "\<And>runner. r = Inr runner \<Longrightarrow> held_config runner = config"
  using assms
  by (auto simp: ForgettingExperimentRunner_def split: prod.splits sum.splits)

lemma run_experiments_returns:
  assumes "run_experiments R config xs w = (Inr res, w')"
  shows "res = recorded (wall_clock w) (time_reads w) xs []"
    and "invoked w' = invoked w @ map (Pair config) xs"
    and "time_reads w' = time_reads w + 2 * length xs"
    and "wall_clock w' = wall_clock w" and "fs w' = fs w" and "stdout w' = stdout w"
    and "(heap w', ext w')
           = foldl (\<lambda>s x. snd (run_experiment R config x s))
               (snd (construct R config (heap w, ext w))) xs"
proof -
  from assms obtain runner w1 where
    c: "ForgettingExperimentRunner R config w = (Inr runner, w1)" and
    l: "run_loop R runner xs [] w1 = (Inr res, w')"
    by (auto simp: run_experiments_def split: prod.splits sum.splits)
  note f = construct_frame[OF c] and r = run_loop_returns[OF l]
  show "(heap w', ext w')
           = foldl (\<lambda>s x. snd (run_experiment R config x s))
               (snd (construct R config (heap w, ext w))) xs"
    using f r by simp
  show "res = recorded (wall_clock w) (time_reads w) xs []" using f r by simp
  show "invoked w' = invoked w @ map (Pair config) xs" using f r by simp
  show "time_reads w' = time_reads w + 2 * length xs" using f r by simp
  show "wall_clock w' = wall_clock w" using f r by simp
  show "fs w' = fs w" using f r by simp
  show "stdout w' = stdout w" using f r by simp
qed

subsection \<open>What the loop records\<close>

lemma recorded_all_completed:
  "(k, m) \<in> set (recorded clock t xs res) \<Longrightarrow>
     (k, m) \<in> set res \<or> (\<exists>i<length xs. xs ! i = k \<and>
        m = \<lparr>completed = True, duration = float_sub (clock (Suc (t + 2 * i))) (clock (t + 2 * i))\<rparr>)"
proof (induction xs arbitrary: res t)
  case Nil
  then show ?case by simp
next
  case (Cons x xs)
  let ?v = "\<lparr>completed = True, duration = float_sub (clock (Suc t)) (clock t)\<rparr>"
  from Cons.prems have "(k, m) \<in> set (recorded clock (t + 2) xs (dict_set res x ?v))" by simp
  from Cons.IH[OF this] consider
      (old) "(k, m) \<in> set (dict_set res x ?v)"
    | (new) i where "i < length xs" "xs ! i = k"
        "m = \<lparr>completed = True, duration = float_sub (clock (Suc (t + 2 + 2 * i))) (clock (t + 2 + 2 * i))\<rparr>"
    by blast
  then show ?case
  proof cases
    case old
    with set_dict_set[of res x ?v] have "(k, m) = (x, ?v) \<or> (k, m) \<in> set res" by auto
    then show ?thesis by force
  next
    case new
    then have "Suc i < length (x # xs) \<and> (x # xs) ! Suc i = k \<and>
        m = \<lparr>completed = True, duration = float_sub (clock (Suc (t + 2 * Suc i))) (clock (t + 2 * Suc i))\<rparr>"
      by simp
    then show ?thesis by blast
  qed
qed

text \<open>
  C10. Whenever \<^verbatim>\<open>run_experiments\<close> returns, every entry of the dictionary it returns is
  \<^verbatim>\<open>{'completed': True, 'duration': d}\<close> for some \<open>d\<close>: no entry has \<^verbatim>\<open>completed\<close> false.
\<close>

theorem run_experiments_only_records_completed:
  "run_experiments R config experiments w = (Inr results, w') \<Longrightarrow>
     \<forall>(experiment, entry) \<in> set results. \<exists>d. entry = \<lparr>completed = True, duration = d\<rparr>"
proof -
  assume "run_experiments R config experiments w = (Inr results, w')"
  then have "results = recorded (wall_clock w) (time_reads w) experiments []"
    by (rule run_experiments_returns)
  then show ?thesis
    using recorded_all_completed[of _ _ "wall_clock w" "time_reads w" experiments "[]"]
    by fastforce
qed

theorem run_experiments_only_records_completed_witness:
  "fst (run_experiments obliging_runner 0
          [''baseline_comparison'', ''privacy_impact''] start_world)
     = Inr [(''baseline_comparison'', \<lparr>completed = True, duration = 1\<rparr>),
            (''privacy_impact'', \<lparr>completed = True, duration = 1\<rparr>)]
   \<and> list_all (\<lambda>(experiment, entry). \<exists>d. entry = \<lparr>completed = True, duration = d\<rparr>)
         [(''baseline_comparison'', \<lparr>completed = True, duration = 1\<rparr>),
          (''privacy_impact'', \<lparr>completed = True, duration = (1::rat)\<rparr>)]"
proof -
  let ?run = "run_experiments obliging_runner 0
          [''baseline_comparison'', ''privacy_impact''] start_world"
  have f: "fst ?run = Inr [(''baseline_comparison'', \<lparr>completed = True, duration = 1\<rparr>),
                        (''privacy_impact'', \<lparr>completed = True, duration = 1\<rparr>)]"
    by (simp add: run_experiments_def ForgettingExperimentRunner_def obliging_runner_def
        start_world_def call_run_experiment_def time_time_def logger_info_def Let_def
        float_sub_values)
  then have run: "?run = (Inr [(''baseline_comparison'', \<lparr>completed = True, duration = 1\<rparr>),
                        (''privacy_impact'', \<lparr>completed = True, duration = 1\<rparr>)], snd ?run)"
    by (metis prod.collapse)
  from run_experiments_only_records_completed[OF run] f show ?thesis
    by (simp add: list_all_iff)
qed

lemma first_occurrences_set: "set (first_occurrences xs) = set xs"
  by (induction xs) auto

lemma first_occurrences_distinct: "distinct (first_occurrences xs)"
  by (induction xs) (auto simp: distinct_removeAll)

lemma dict_keys_recorded:
  "dict_keys (recorded clock t xs res) =
     dict_keys res @ filter (\<lambda>x. x \<notin> set (dict_keys res)) (first_occurrences xs)"
proof (induction xs arbitrary: res t)
  case Nil
  then show ?case by simp
next
  case (Cons x xs)
  show ?case
    by (auto simp: Cons.IH dict_keys_dict_set removeAll_filter_not_eq intro!: filter_cong)
qed

lemma dict_get_recorded_other:
  "k \<notin> set xs \<Longrightarrow> dict_get (recorded clock t xs res) k = dict_get res k"
  by (induction xs arbitrary: res t) (auto simp: dict_get_dict_set)

lemma dict_get_recorded_last:
  "i < length xs \<Longrightarrow> \<forall>j. i < j \<and> j < length xs \<longrightarrow> xs ! j \<noteq> xs ! i \<Longrightarrow>
     dict_get (recorded clock t xs res) (xs ! i)
       = Some \<lparr>completed = True, duration = float_sub (clock (Suc (t + 2 * i))) (clock (t + 2 * i))\<rparr>"
proof (induction xs arbitrary: res t i)
  case Nil
  then show ?case by simp
next
  case (Cons x xs)
  show ?case
  proof (cases i)
    case 0
    with Cons.prems have "x \<notin> set xs"
      by (auto simp: in_set_conv_nth)
    with 0 show ?thesis
      by (simp add: dict_get_recorded_other dict_get_dict_set)
  next
    case (Suc i')
    with Cons.prems have "i' < length xs" and "\<forall>j. i' < j \<and> j < length xs \<longrightarrow> xs ! j \<noteq> xs ! i'"
      by auto
    from Cons.IH[OF this] Suc show ?thesis by simp
  qed
qed

lemma run_loop_frame:
  "fs (snd (run_loop R r xs res w)) = fs w \<and> stdout (snd (run_loop R r xs res w)) = stdout w"
  by (induction xs arbitrary: res w)
     (auto simp: Let_def time_time_def call_run_experiment_def logger_info_def
        split: prod.splits sum.splits)

lemma run_experiments_frame:
  "fs (snd (run_experiments R config xs w)) = fs w \<and>
   stdout (snd (run_experiments R config xs w)) = stdout w"
  using run_loop_frame[of R _ xs "[]"]
  by (auto simp: run_experiments_def ForgettingExperimentRunner_def split: prod.splits sum.splits)

lemmas run_defs = run_experiments_def ForgettingExperimentRunner_def call_run_experiment_def
  time_time_def logger_info_def Let_def float_sub_values

subsection \<open>Failure of an experiment\<close>

lemma run_experiments_raises_after_prefix:
  assumes "run_experiments R config pre w = (Inr results, w1)"
      and "fst (run_experiment R config x (heap w1, ext w1)) = Inl e"
  shows "fst (run_experiments R config (pre @ x # post) w) = Inl e \<and>
         invoked (snd (run_experiments R config (pre @ x # post) w))
           = invoked w @ map (Pair config) (pre @ [x])"
proof -
  from assms(1) obtain runner w0 where
    c: "ForgettingExperimentRunner R config w = (Inr runner, w0)" and
    l: "run_loop R runner pre [] w0 = (Inr results, w1)"
    by (auto simp: run_experiments_def split: prod.splits sum.splits)
  have h: "held_config runner = config" and i0: "invoked w0 = invoked w"
    using construct_frame[OF c] by simp_all
  have i1: "invoked w1 = invoked w @ map (Pair config) pre"
    using run_loop_returns[OF l] h i0 by simp
  have "run_experiments R config (pre @ x # post) w = run_loop R runner (x # post) results w1"
    by (simp add: run_experiments_def c run_loop_append l)
  moreover have "fst (run_experiment R (held_config runner) x (heap w1, ext w1)) = Inl e"
    using assms(2) h by simp
  ultimately show ?thesis
    using run_loop_raises_at_head(1,2)[of R runner x w1 e post results] h i1 by simp
qed

text \<open>
  C1, as the code has it. When the call of the runner raises for an identifier, after
  the identifiers before it have returned, the exception leaves \<^verbatim>\<open>run_experiments\<close>: no
  dictionary is returned, nothing is recorded for the identifier, and the runner has
  been called for the identifiers up to it and for none after it.
\<close>

theorem run_experiments_propagates_failure:
  assumes "run_experiments R config pre w = (Inr results, w1)"
      and "fst (run_experiment R config x (heap w1, ext w1)) = Inl e"
  shows "fst (run_experiments R config (pre @ x # post) w) = Inl e \<and>
         invoked (snd (run_experiments R config (pre @ x # post) w))
           = invoked w @ map (Pair config) (pre @ [x])"
  using assms by (rule run_experiments_raises_after_prefix)

theorem run_experiments_propagates_failure_witness:
  "fst (run_experiments (breaking_runner ''user_segmentation'') 0
          [''scalability_test''] start_world)
     = Inr [(''scalability_test'', \<lparr>completed = True, duration = 1\<rparr>)] \<and>
   fst (run_experiment (breaking_runner ''user_segmentation'') 0
          ''user_segmentation'' (heap start_world, ())) = Inl (ExperimentExecutionError ''user_segmentation'') \<and>
   fst (run_experiments (breaking_runner ''user_segmentation'') 0
          ([''scalability_test''] @ ''user_segmentation'' # [''baseline_comparison'']) start_world)
     = Inl (ExperimentExecutionError ''user_segmentation'') \<and>
   invoked (snd (run_experiments (breaking_runner ''user_segmentation'') 0
          ([''scalability_test''] @ ''user_segmentation'' # [''baseline_comparison'']) start_world))
     = [(0, ''scalability_test''), (0, ''user_segmentation'')]"
proof -
  let ?R = "breaking_runner ''user_segmentation''"
  let ?run = "run_experiments ?R 0 [''scalability_test''] start_world"
  have f: "fst ?run = Inr [(''scalability_test'', \<lparr>completed = True, duration = 1\<rparr>)]"
    by (simp add: run_defs breaking_runner_def start_world_def)
  then have run: "?run = (Inr [(''scalability_test'', \<lparr>completed = True, duration = 1\<rparr>)], snd ?run)"
    by (metis prod.collapse)
  have bad: "fst (run_experiment ?R 0 ''user_segmentation'' (heap (snd ?run), ext (snd ?run)))
      = Inl (ExperimentExecutionError ''user_segmentation'')"
    by (simp add: breaking_runner_def)
  from run_experiments_propagates_failure[OF run bad, of "[''baseline_comparison'']"] f
  show ?thesis
    by (simp add: breaking_runner_def start_world_def)
qed

text \<open>
  C1, as the claim states it, fails: with an experiment that raises in second place out
  of three, \<^verbatim>\<open>run_experiments\<close> raises and the third experiment is never run.
\<close>

theorem run_experiments_propagates_failure_counterexample:
  "fst (run_experiments (breaking_runner ''temporal_evaluation'') 0
          [''baseline_comparison'', ''temporal_evaluation'', ''privacy_impact''] start_world)
     = Inl (ExperimentExecutionError ''temporal_evaluation'') \<and>
   map snd (invoked (snd (run_experiments (breaking_runner ''temporal_evaluation'') 0
          [''baseline_comparison'', ''temporal_evaluation'', ''privacy_impact''] start_world)))
     = [''baseline_comparison'', ''temporal_evaluation'']"
  by (simp add: run_defs breaking_runner_def start_world_def)

subsection \<open>An identifier outside the registry\<close>

text \<open>
  C2, as the code has it. When the request holds an identifier outside the registry,
  and a run of \<^verbatim>\<open>main\<close> with only the identifiers before it completes, then the
  \<^verbatim>\<open>UnknownExperimentError\<close> of the runner leaves \<^verbatim>\<open>run_experiments\<close> and \<^verbatim>\<open>main\<close>: the
  process ends with it, the runner has been called for the identifiers up to the
  unknown one and for none after it, no summary is printed and no file is written.
\<close>

theorem unknown_experiment_aborts_main:
  assumes "u \<notin> set known_experiments"
      and "arg_experiments args = pre @ u # post"
      and "fst (main (with_registry R) float_repr (args\<lparr>arg_experiments := pre\<rparr>) w) = Inr ()"
  shows "fst (main (with_registry R) float_repr args w) = Inl (UnknownExperimentError u) \<and>
         map snd (invoked (snd (main (with_registry R) float_repr args w)))
           = map snd (invoked w) @ pre @ [u] \<and>
         stdout (snd (main (with_registry R) float_repr args w)) = stdout w \<and>
         files (fs (snd (main (with_registry R) float_repr args w))) = files (fs w)"
proof -
  let ?R = "with_registry R"
  let ?attributes = "\<lparr>data_path = arg_data_path args, output_dir = arg_output_dir args,
                   num_users = arg_num_users args, temporal_split = arg_temporal_split args,
                   test_days = arg_test_days args, seed = arg_seed args\<rparr>"
  let ?w1 = "logger_info Starting_application w"
  from assms(3) obtain f where mk: "os_makedirs_exist_ok (fs ?w1) (arg_output_dir args) = Inr f"
    by (auto simp: main_def Let_def split: sum.splits)
  obtain config w2 where fc: "ForgettingConfig ?attributes (?w1\<lparr>fs := f\<rparr>) = (config, w2)"
    by (cases "ForgettingConfig ?attributes (?w1\<lparr>fs := f\<rparr>)")
  then have w2: "fs w2 = f" "stdout w2 = stdout w" "invoked w2 = invoked w"
    by (auto simp: ForgettingConfig_def logger_info_def)
  let ?w3 = "logger_info (Configuration_is (heap w2 config)) w2"
  from assms(3) mk fc obtain results w4 where
    run: "run_experiments ?R config pre ?w3 = (Inr results, w4)"
    by (auto simp: main_def Let_def split: sum.splits prod.splits)
  have bad: "fst (run_experiment ?R config u (heap w4, ext w4)) = Inl (UnknownExperimentError u)"
    using assms(1) by (simp add: with_registry_def)
  note p = run_experiments_raises_after_prefix[OF run bad, of post]
  have files: "files f = files (fs w)"
    using mk by (auto simp: os_makedirs_exist_ok_def logger_info_def split: if_splits)
  obtain r5 w5 where m: "run_experiments ?R config (pre @ u # post) ?w3 = (r5, w5)"
    by (cases "run_experiments ?R config (pre @ u # post) ?w3")
  with p have r5: "r5 = Inl (UnknownExperimentError u)"
    and i5: "invoked w5 = invoked ?w3 @ map (Pair config) (pre @ [u])" by simp_all
  have main_eq: "main ?R float_repr args w = (Inl (UnknownExperimentError u), w5)"
    using mk fc m r5 assms(2) by (simp add: main_def Let_def)
  have "fs w5 = f" and "stdout w5 = stdout w"
    using run_experiments_frame[of ?R config "pre @ u # post" ?w3] m w2
    by (simp_all add: logger_info_def)
  with main_eq i5 files w2 show ?thesis
    by (simp add: logger_info_def comp_def)
qed

theorem unknown_experiment_aborts_main_witness:
  "''no_such_experiment'' \<notin> set known_experiments \<and>
   arg_experiments (default_args\<lparr>arg_experiments := [''privacy_impact'', ''no_such_experiment'']\<rparr>)
     = [''privacy_impact''] @ ''no_such_experiment'' # [] \<and>
   fst (main (with_registry obliging_runner) (\<lambda>x. ''1.0'')
          (default_args\<lparr>arg_experiments := [''privacy_impact'']\<rparr>) start_world) = Inr () \<and>
   fst (main (with_registry obliging_runner) (\<lambda>x. ''1.0'')
          (default_args\<lparr>arg_experiments := [''privacy_impact'', ''no_such_experiment'']\<rparr>)
          start_world)
     = Inl (UnknownExperimentError ''no_such_experiment'') \<and>
   map snd (invoked (snd (main (with_registry obliging_runner) (\<lambda>x. ''1.0'')
          (default_args\<lparr>arg_experiments := [''privacy_impact'', ''no_such_experiment'']\<rparr>)
          start_world)))
     = [''privacy_impact'', ''no_such_experiment'']"
proof -
  let ?args = "default_args\<lparr>arg_experiments := [''privacy_impact'', ''no_such_experiment'']\<rparr>"
  let ?R = "with_registry obliging_runner"
  have u: "''no_such_experiment'' \<notin> set known_experiments"
    by (simp add: known_experiments_def)
  have s: "arg_experiments ?args = [''privacy_impact''] @ ''no_such_experiment'' # []"
    by simp
  have "fst (main ?R (\<lambda>x. ''1.0'') (default_args\<lparr>arg_experiments := [''privacy_impact'']\<rparr>)
          start_world) = Inr ()"
    by (simp add: main_def run_defs with_registry_def known_experiments_def obliging_runner_def
        default_args_def start_world_def empty_disk_def os_makedirs_exist_ok_def ancestors_def
        ForgettingConfig_def
        generate_report_def open_w_def write_close_def os_path_join_def dirname_def rstrip_sep_def
        print_def)
  then have p: "fst (main ?R (\<lambda>x. ''1.0'') (?args\<lparr>arg_experiments := [''privacy_impact'']\<rparr>)
          start_world) = Inr ()"
    by simp
  from unknown_experiment_aborts_main[OF u s p] u p show ?thesis
    by (simp add: start_world_def)
qed

text \<open>
  C2, as the claim states it, fails: for the request \<^verbatim>\<open>baseline_comparison\<close>,
  \<^verbatim>\<open>unknown_experiment\<close>, \<^verbatim>\<open>temporal_evaluation\<close> the process ends with the exception, the
  third experiment is not run, and there is neither a report nor a summary.
\<close>

theorem unknown_experiment_aborts_main_counterexample:
  "fst (main (with_registry obliging_runner) (\<lambda>x. ''1.0'')
          (default_args\<lparr>arg_experiments :=
             [''baseline_comparison'', ''unknown_experiment'', ''temporal_evaluation'']\<rparr>)
          start_world)
     = Inl (UnknownExperimentError ''unknown_experiment'') \<and>
   map snd (invoked (snd (main (with_registry obliging_runner) (\<lambda>x. ''1.0'')
          (default_args\<lparr>arg_experiments :=
             [''baseline_comparison'', ''unknown_experiment'', ''temporal_evaluation'']\<rparr>)
          start_world)))
     = [''baseline_comparison'', ''unknown_experiment''] \<and>
   files (fs (snd (main (with_registry obliging_runner) (\<lambda>x. ''1.0'')
          (default_args\<lparr>arg_experiments :=
             [''baseline_comparison'', ''unknown_experiment'', ''temporal_evaluation'']\<rparr>)
          start_world))) ''./results/experiment_report.json'' = None \<and>
   stdout (snd (main (with_registry obliging_runner) (\<lambda>x. ''1.0'')
          (default_args\<lparr>arg_experiments :=
             [''baseline_comparison'', ''unknown_experiment'', ''temporal_evaluation'']\<rparr>)
          start_world)) = []"
  by (simp add: main_def run_defs with_registry_def known_experiments_def obliging_runner_def
        default_args_def start_world_def empty_disk_def os_makedirs_exist_ok_def ancestors_def
        ForgettingConfig_def)

subsection \<open>Durations\<close>

text \<open>
  C4, as the code has it. \<^verbatim>\<open>time.time()\<close> is the wall clock, which the system may set
  back. Whenever \<^verbatim>\<open>run_experiments\<close> returns, and for no occurrence the reading after the
  call of the runner is smaller than the reading before it, every recorded duration
  is non-negative.
\<close>

theorem durations_nonnegative:
  assumes "run_experiments R config experiments w = (Inr results, w')"
      and "\<forall>i<length experiments.
             wall_clock w (time_reads w + 2 * i) \<le> wall_clock w (Suc (time_reads w + 2 * i))"
  shows "\<forall>(experiment, entry) \<in> set results. 0 \<le> duration entry"
proof -
  from assms(1) have r: "results = recorded (wall_clock w) (time_reads w) experiments []"
    by (rule run_experiments_returns)
  have "0 \<le> duration entry" if "(k, entry) \<in> set results" for k entry
  proof -
    from that r recorded_all_completed[of k entry "wall_clock w" "time_reads w" experiments "[]"]
    obtain i where "i < length experiments" and
      "entry = \<lparr>completed = True,
         duration = float_sub (wall_clock w (Suc (time_reads w + 2 * i)))
                      (wall_clock w (time_reads w + 2 * i))\<rparr>"
      by auto
    with assms(2) show ?thesis by (simp add: float_sub_nonneg)
  qed
  then show ?thesis by blast
qed

theorem durations_nonnegative_witness:
  "fst (run_experiments obliging_runner 0
          [''parameter_sensitivity'', ''scalability_test''] start_world)
     = Inr [(''parameter_sensitivity'', \<lparr>completed = True, duration = 1\<rparr>),
            (''scalability_test'', \<lparr>completed = True, duration = 1\<rparr>)] \<and>
   wall_clock start_world 0 \<le> wall_clock start_world 1 \<and>
   wall_clock start_world 2 \<le> wall_clock start_world 3 \<and>
   list_all (\<lambda>(k, entry). 0 \<le> duration entry)
     [(''parameter_sensitivity'', \<lparr>completed = True, duration = 1\<rparr>),
      (''scalability_test'', \<lparr>completed = True, duration = (1::rat)\<rparr>)]"
proof -
  let ?xs = "[''parameter_sensitivity'', ''scalability_test'']"
  let ?run = "run_experiments obliging_runner 0 ?xs start_world"
  let ?res = "[(''parameter_sensitivity'', \<lparr>completed = True, duration = 1\<rparr>),
               (''scalability_test'', \<lparr>completed = True, duration = (1::rat)\<rparr>)]"
  have f: "fst ?run = Inr ?res"
    by (simp add: run_defs obliging_runner_def start_world_def)
  then have run: "?run = (Inr ?res, snd ?run)"
    by (metis prod.collapse)
  have clock: "\<forall>i<length ?xs. wall_clock start_world (time_reads start_world + 2 * i)
      \<le> wall_clock start_world (Suc (time_reads start_world + 2 * i))"
    by (simp add: start_world_def)
  from durations_nonnegative[OF run clock] f show ?thesis
    by (simp add: start_world_def list_all_iff)
qed

text \<open>
  C4, as the claim states it, fails: when the clock reads 10 before the call and 5
  after it, the recorded duration is \<open>-5\<close>.
\<close>

theorem durations_nonnegative_counterexample:
  "fst (run_experiments obliging_runner 0 [''baseline_comparison'']
          (start_world\<lparr>wall_clock := clock_set_back\<rparr>))
     = Inr [(''baseline_comparison'', \<lparr>completed = True, duration = - 5\<rparr>)]"
  by (simp add: run_defs obliging_runner_def start_world_def clock_set_back_def)

subsection \<open>The output directory\<close>

text \<open>
  C9. The step that creates the output directory is \<^verbatim>\<open>os.makedirs(args.output_dir,
  exist_ok=True)\<close>. When it has succeeded once, so that the directory exists, doing it
  again succeeds, changes nothing and leaves the directory in place.
\<close>

theorem os_makedirs_exist_ok_idempotent:
  "os_makedirs_exist_ok f name = Inr f' \<Longrightarrow>
     os_makedirs_exist_ok f' name = Inr f' \<and> name \<in> dirs f'"
  by (auto simp: os_makedirs_exist_ok_def split: if_splits)

theorem os_makedirs_exist_ok_idempotent_witness:
  "os_makedirs_exist_ok empty_disk ''./results''
     = Inr (empty_disk\<lparr>dirs := {''./results'', ''.''}\<rparr>) \<and>
   os_makedirs_exist_ok (empty_disk\<lparr>dirs := {''./results'', ''.''}\<rparr>) ''./results''
     = Inr (empty_disk\<lparr>dirs := {''./results'', ''.''}\<rparr>) \<and>
   ''./results'' \<in> dirs (empty_disk\<lparr>dirs := {''./results'', ''.''}\<rparr>)"
proof -
  have first: "os_makedirs_exist_ok empty_disk ''./results''
     = Inr (empty_disk\<lparr>dirs := {''./results'', ''.''}\<rparr>)"
    by (simp add: os_makedirs_exist_ok_def empty_disk_def ancestors_def)
  from os_makedirs_exist_ok_idempotent[OF first] first show ?thesis by simp
qed

subsection \<open>The report\<close>

lemma fold_print:
  "stdout (fold (\<lambda>(k, entry). print (summary_line k entry)) rs w)
     = stdout w @ map (\<lambda>(k, entry). summary_line k entry) rs"
  by (induction rs arbitrary: w) (auto simp: print_def)

lemma fold_print_frame:
  "fs (fold (\<lambda>(k, entry). print (summary_line k entry)) rs w) = fs w \<and>
   invoked (fold (\<lambda>(k, entry). print (summary_line k entry)) rs w) = invoked w \<and>
   observed (fold (\<lambda>(k, entry). print (summary_line k entry)) rs w) = observed w \<and>
   heap (fold (\<lambda>(k, entry). print (summary_line k entry)) rs w) = heap w"
  by (induction rs arbitrary: w) (auto simp: print_def)

lemma generate_report_returns:
  assumes "generate_report float_repr config results w = (Inr u, w')"
  shows "\<exists>f1. open_w (fs w) (os_path_join (output_dir (heap w config)) ''experiment_report.json'') = Inr f1 \<and>
           write_close f1 (os_path_join (output_dir (heap w config)) ''experiment_report.json'')
             (json_text float_repr 0 (report (heap w config) results)) = (Inr (), fs w')"
    and "stdout w' = stdout w @ [CHR 0x0A # ''===== Experiment Summary =====''] @
           map (\<lambda>(k, entry). summary_line k entry) results @
           [''=============================='' @ [CHR 0x0A]]"
    and "invoked w' = invoked w" and "observed w' = observed w" and "heap w' = heap w"
  using assms
  by (auto simp: generate_report_def Let_def fold_print fold_print_frame print_def logger_info_def
        split: sum.splits prod.splits)

lemma open_w_empties: "open_w f p = Inr f1 \<Longrightarrow> files f1 p = Some []"
  by (auto simp: open_w_def split: if_splits)

lemma write_close_cases:
  assumes "write_close f p text = (r, f')" and "files f p = Some []"
  shows "(r = Inr () \<and> files f' p = Some text) \<or>
         (r = Inl NoSpaceLeftError \<and> (\<exists>n<length text. files f' p = Some (take n text)))"
proof (cases "room f")
  case None
  with assms show ?thesis by (auto simp: write_close_def)
next
  case (Some n)
  show ?thesis
  proof (cases "length text \<le> n")
    case True
    with assms Some show ?thesis by (auto simp: write_close_def)
  next
    case False
    with assms Some have "r = Inl NoSpaceLeftError" and "files f' p = Some (take n text)"
      by (auto simp: write_close_def)
    moreover from False have "n < length text" by simp
    ultimately show ?thesis by blast
  qed
qed

text \<open>
  C3, as the code has it. \<^verbatim>\<open>generate_report\<close> opens the report file itself for writing,
  which empties it, and writes into it; there is no temporary file and no rename. So
  either it returns and the file holds the whole document, or it raises before the file
  was touched, or it raises with the file holding a proper prefix of the document.
\<close>

theorem generate_report_not_atomic:
  "generate_report float_repr config results w = (r, w') \<Longrightarrow>
     (r = Inr () \<and>
        files (fs w') (os_path_join (output_dir (heap w config)) ''experiment_report.json'')
          = Some (json_text float_repr 0 (report (heap w config) results))) \<or>
     ((\<exists>e. r = Inl e) \<and> fs w' = fs w) \<or>
     (r = Inl NoSpaceLeftError \<and>
        (\<exists>n<length (json_text float_repr 0 (report (heap w config) results)).
           files (fs w') (os_path_join (output_dir (heap w config)) ''experiment_report.json'')
             = Some (take n (json_text float_repr 0 (report (heap w config) results)))))"
proof -
  let ?path = "os_path_join (output_dir (heap w config)) ''experiment_report.json''"
  let ?text = "json_text float_repr 0 (report (heap w config) results)"
  assume g: "generate_report float_repr config results w = (r, w')"
  show ?thesis
  proof (cases "open_w (fs w) ?path")
    case (Inl e)
    with g have "r = Inl e" and "w' = w"
      by (auto simp: generate_report_def Let_def)
    then show ?thesis by simp
  next
    case (Inr f1)
    obtain r2 f2 where wc: "write_close f1 ?path ?text = (r2, f2)"
      by (cases "write_close f1 ?path ?text")
    from g Inr wc have r: "r = r2" and f: "fs w' = f2"
      by (auto simp: generate_report_def Let_def fold_print_frame print_def logger_info_def
            split: sum.splits)
    from write_close_cases[OF wc open_w_empties[OF Inr]] r f show ?thesis by auto
  qed
qed

text \<open>
  C3, as the claim states it, fails: when the device takes five more characters, the
  write raises, the previous report is gone and the file holds the first five characters
  of the new one.
\<close>

theorem generate_report_not_atomic_counterexample:
  "fst (generate_report (\<lambda>x. ''1.0'') 0 []
          (start_world\<lparr>fs := \<lparr>dirs = {''./results''},
             files = [''./results/experiment_report.json'' \<mapsto> ''old report''],
             denied = {}, room = Some 5\<rparr>\<rparr>))
     = Inl NoSpaceLeftError \<and>
   files (fs (snd (generate_report (\<lambda>x. ''1.0'') 0 []
          (start_world\<lparr>fs := \<lparr>dirs = {''./results''},
             files = [''./results/experiment_report.json'' \<mapsto> ''old report''],
             denied = {}, room = Some 5\<rparr>\<rparr>))))
      ''./results/experiment_report.json''
     = Some [CHR ''{'', CHR 0x0A, CHR '' '', CHR '' '', CHR '' '']"
  by (simp add: generate_report_def default_config_def start_world_def open_w_def write_close_def
        os_path_join_def dirname_def rstrip_sep_def report_def json_string_def newline_indent_def
        Let_def eval_nat_numeral)

lemma heap_start_world: "heap start_world r = default_config"
  by (simp add: start_world_def)

theorem generate_report_not_atomic_witness:
  "fst (generate_report (\<lambda>x. ''1.0'') 0
          [(''privacy_impact'', \<lparr>completed = True, duration = 1\<rparr>)]
          (start_world\<lparr>fs := empty_disk\<lparr>dirs := {''./results''}\<rparr>\<rparr>)) = Inr () \<and>
   files (fs (snd (generate_report (\<lambda>x. ''1.0'') 0
          [(''privacy_impact'', \<lparr>completed = True, duration = 1\<rparr>)]
          (start_world\<lparr>fs := empty_disk\<lparr>dirs := {''./results''}\<rparr>\<rparr>))))
        (os_path_join (output_dir default_config) ''experiment_report.json'')
     = Some (json_text (\<lambda>x. ''1.0'') 0
         (report default_config [(''privacy_impact'', \<lparr>completed = True, duration = 1\<rparr>)]))"
proof -
  let ?g = "generate_report (\<lambda>x. ''1.0'') 0
          [(''privacy_impact'', \<lparr>completed = True, duration = 1\<rparr>)]
          (start_world\<lparr>fs := empty_disk\<lparr>dirs := {''./results''}\<rparr>\<rparr>)"
  have f: "fst ?g = Inr ()"
    by (simp add: generate_report_def default_config_def start_world_def empty_disk_def
        open_w_def write_close_def os_path_join_def dirname_def rstrip_sep_def Let_def)
  have g: "?g = (fst ?g, snd ?g)" by simp
  from generate_report_not_atomic[OF g] f show ?thesis by (simp add: heap_start_world)
qed

lemma format_2f_1: "format_2f 1 = ''1.00''"
  by code_simp

subsection \<open>The summary\<close>

text \<open>
  C6, as the code has it. When \<^verbatim>\<open>run_experiments\<close> returns and the report is written,
  the summary is the heading, one line per entry of the dictionary, and the closing line.
  The entries are the distinct identifiers of the request in the order of their first
  occurrence; each line shows the identifier, \<^verbatim>\<open>Completed\<close>, and the duration of the entry
  with two decimals.
\<close>

theorem summary_lists_recorded_entries:
  assumes "run_experiments R config experiments w = (Inr results, w1)"
      and "generate_report float_repr config results w1 = (Inr (), w2)"
  shows "stdout w2 = stdout w1 @ [CHR 0x0A # ''===== Experiment Summary =====''] @
           map (\<lambda>(k, entry). ''- '' @ k @ '': Completed in '' @ format_2f (duration entry)
                  @ '' seconds'') results @
           [''=============================='' @ [CHR 0x0A]] \<and>
         dict_keys results = first_occurrences experiments"
proof -
  note r = run_experiments_returns[OF assms(1)]
  have keys: "dict_keys results = first_occurrences experiments"
    using r(1) by (simp add: dict_keys_recorded) (simp add: dict_keys_def)
  have "completed entry" if "(k, entry) \<in> set results" for k entry
    using recorded_all_completed[of k entry "wall_clock w" "time_reads w" experiments "[]"] that r(1)
    by auto
  then have "map (\<lambda>(k, entry). summary_line k entry) results
      = map (\<lambda>(k, entry). ''- '' @ k @ '': Completed in '' @ format_2f (duration entry)
                  @ '' seconds'') results"
    by (auto simp: summary_line_def)
  with generate_report_returns(2)[OF assms(2)] keys show ?thesis by simp
qed

lemma format_2f_eighths: "format_2f (9 / 8) = ''1.12''" "format_2f (5 / 8) = ''0.62''"
  by code_simp+

theorem summary_lists_recorded_entries_witness:
  "fst (run_experiments obliging_runner 0
          [''scalability_test'', ''user_segmentation'', ''scalability_test'']
          (start_world\<lparr>wall_clock := (\<lambda>n. of_nat (n * n) / 8),
                        fs := empty_disk\<lparr>dirs := {''./results''}\<rparr>\<rparr>))
     = Inr [(''scalability_test'', \<lparr>completed = True, duration = 9 / 8\<rparr>),
            (''user_segmentation'', \<lparr>completed = True, duration = 5 / 8\<rparr>)] \<and>
   fst (generate_report (\<lambda>x. ''1.0'') 0
          [(''scalability_test'', \<lparr>completed = True, duration = 9 / 8\<rparr>),
           (''user_segmentation'', \<lparr>completed = True, duration = 5 / 8\<rparr>)]
          (snd (run_experiments obliging_runner 0
             [''scalability_test'', ''user_segmentation'', ''scalability_test'']
             (start_world\<lparr>wall_clock := (\<lambda>n. of_nat (n * n) / 8),
                           fs := empty_disk\<lparr>dirs := {''./results''}\<rparr>\<rparr>)))) = Inr () \<and>
   stdout (snd (generate_report (\<lambda>x. ''1.0'') 0
          [(''scalability_test'', \<lparr>completed = True, duration = 9 / 8\<rparr>),
           (''user_segmentation'', \<lparr>completed = True, duration = 5 / 8\<rparr>)]
          (snd (run_experiments obliging_runner 0
             [''scalability_test'', ''user_segmentation'', ''scalability_test'']
             (start_world\<lparr>wall_clock := (\<lambda>n. of_nat (n * n) / 8),
                           fs := empty_disk\<lparr>dirs := {''./results''}\<rparr>\<rparr>)))))
     = [CHR 0x0A # ''===== Experiment Summary ====='',
        ''- scalability_test: Completed in 1.12 seconds'',
        ''- user_segmentation: Completed in 0.62 seconds'',
        ''=============================='' @ [CHR 0x0A]]"
proof -
  let ?w = "start_world\<lparr>wall_clock := (\<lambda>n. of_nat (n * n) / 8),
                        fs := empty_disk\<lparr>dirs := {''./results''}\<rparr>\<rparr>"
  let ?xs = "[''scalability_test'', ''user_segmentation'', ''scalability_test'']"
  let ?res = "[(''scalability_test'', \<lparr>completed = True, duration = 9 / (8::rat)\<rparr>),
               (''user_segmentation'', \<lparr>completed = True, duration = 5 / 8\<rparr>)]"
  let ?run = "run_experiments obliging_runner 0 ?xs ?w"
  let ?gen = "generate_report (\<lambda>x. ''1.0'') 0 ?res (snd ?run)"
  have f: "fst ?run = Inr ?res"
    by (simp add: run_defs obliging_runner_def start_world_def)
  have run: "?run = (Inr ?res, snd ?run)"
    by (rule prod_eqI) (simp_all only: fst_conv snd_conv f)
  have frame: "fs (snd ?run) = fs ?w" "stdout (snd ?run) = stdout ?w"
    using run_experiments_frame[of obliging_runner 0 ?xs ?w] by blast+
  have "(heap (snd ?run), ext (snd ?run)) = (heap ?w, ext ?w)"
    using run_experiments_returns(7)[OF run] by (simp add: obliging_runner_def)
  then have "heap (snd ?run) 0 = default_config"
    by (simp add: heap_start_world)
  with frame have g: "fst ?gen = Inr ()"
    by (simp add: generate_report_def default_config_def start_world_def empty_disk_def
        open_w_def write_close_def os_path_join_def dirname_def rstrip_sep_def Let_def)
  have gen: "?gen = (Inr (), snd ?gen)"
    by (rule prod_eqI) (simp_all only: fst_conv snd_conv g)
  from summary_lists_recorded_entries[OF run gen] have
    "stdout (snd ?gen) = stdout (snd ?run) @ [CHR 0x0A # ''===== Experiment Summary =====''] @
           map (\<lambda>(k, entry). ''- '' @ k @ '': Completed in '' @ format_2f (duration entry)
                  @ '' seconds'') ?res @
           [''=============================='' @ [CHR 0x0A]]"
    by (rule conjunct1)
  then have "stdout (snd ?gen) = stdout ?w @ [CHR 0x0A # ''===== Experiment Summary =====''] @
           map (\<lambda>(k, entry). ''- '' @ k @ '': Completed in '' @ format_2f (duration entry)
                  @ '' seconds'') ?res @
           [''=============================='' @ [CHR 0x0A]]"
    by (simp only: frame(2))
  then have "stdout (snd ?gen) = [CHR 0x0A # ''===== Experiment Summary ====='',
        ''- scalability_test: Completed in 1.12 seconds'',
        ''- user_segmentation: Completed in 0.62 seconds'',
        ''=============================='' @ [CHR 0x0A]]"
    by (simp add: start_world_def format_2f_eighths)
  with f g show ?thesis by (intro conjI)
qed

text \<open>
  C6, as the claim states it, fails: a request that names an experiment twice gets one
  line for it, and a run in which an experiment raises prints no summary at all.
\<close>

theorem summary_lists_recorded_entries_counterexample:
  "stdout (snd (main obliging_runner (\<lambda>x. ''1.0'')
          (default_args\<lparr>arg_experiments := [''privacy_impact'', ''privacy_impact'']\<rparr>)
          start_world))
     = [CHR 0x0A # ''===== Experiment Summary ====='',
        ''- privacy_impact: Completed in 1.00 seconds'',
        ''=============================='' @ [CHR 0x0A]] \<and>
   stdout (snd (main (breaking_runner ''privacy_impact'') (\<lambda>x. ''1.0'')
          (default_args\<lparr>arg_experiments := [''baseline_comparison'', ''privacy_impact'']\<rparr>)
          start_world)) = []"
  by (simp add: main_def run_defs breaking_runner_def obliging_runner_def
        default_args_def start_world_def empty_disk_def os_makedirs_exist_ok_def ancestors_def
        ForgettingConfig_def
        generate_report_def open_w_def write_close_def os_path_join_def dirname_def rstrip_sep_def
        print_def summary_line_def format_2f_1)

lemma generate_report_file:
  assumes "generate_report float_repr config results w = (Inr u, w')"
  shows "files (fs w') (os_path_join (output_dir (heap w config)) ''experiment_report.json'')
           = Some (json_text float_repr 0 (report (heap w config) results))"
proof -
  from generate_report_returns(1)[OF assms] obtain f1 where
    o: "open_w (fs w) (os_path_join (output_dir (heap w config)) ''experiment_report.json'') = Inr f1" and
    c: "write_close f1 (os_path_join (output_dir (heap w config)) ''experiment_report.json'')
             (json_text float_repr 0 (report (heap w config) results)) = (Inr (), fs w')"
    by blast
  from write_close_cases[OF c open_w_empties[OF o]] show ?thesis by simp
qed

subsection \<open>Reading back what \<open>json_text\<close> writes\<close>

lemma unhex_hexdigit: "n < 16 \<Longrightarrow> unhex (hexdigit n) = Some n"
  by (auto simp: unhex_def hexdigit_def Let_def)

lemma of_char_less_256: "(of_char c :: nat) < 256"
  by (cases c) (simp add: of_char_def)

lemma unhex4_escape:
  "unhex4 (CHR ''0'') (CHR ''0'') (hexdigit (of_char c div 16)) (hexdigit (of_char c mod 16))
     = Some (of_char c)"
proof -
  have "(of_char c :: nat) div 16 < 16"
    using of_char_less_256[of c] by (simp add: div_less_iff_less_mult)
  then show ?thesis
    by (simp add: unhex4_def unhex_hexdigit) (simp add: unhex_def)
qed

lemma lex_string_escape_char:
  "lex_string (escape_char c @ rest) = map_option (\<lambda>(s, r). (c # s, r)) (lex_string rest)"
proof -
  consider (short) "c \<in> {CHR 0x22, CHR 0x5C, CHR 0x0A, CHR 0x0D, CHR 0x09, CHR 0x08, CHR 0x0C}"
    | (hex) "c \<notin> {CHR 0x22, CHR 0x5C, CHR 0x0A, CHR 0x0D, CHR 0x09, CHR 0x08, CHR 0x0C}"
        "(of_char c :: nat) < 32 \<or> 126 < (of_char c :: nat)"
    | (plain) "c \<notin> {CHR 0x22, CHR 0x5C, CHR 0x0A, CHR 0x0D, CHR 0x09, CHR 0x08, CHR 0x0C}"
        "\<not> ((of_char c :: nat) < 32 \<or> 126 < (of_char c :: nat))"
    by blast
  then show ?thesis
  proof cases
    case short
    then show ?thesis by (auto simp: escape_char_def unescape_def)
  next
    case hex
    then have "escape_char c = [CHR 0x5C, CHR ''u'', CHR ''0'', CHR ''0'',
              hexdigit (of_char c div 16), hexdigit (of_char c mod 16)]"
      by (simp add: escape_char_def)
    then show ?thesis
      using of_char_less_256[of c] by (simp add: unhex4_escape)
  next
    case plain
    then have "escape_char c = [c]" by (simp add: escape_char_def)
    with plain show ?thesis by simp
  qed
qed

lemma lex_string_escaped:
  "lex_string (concat (map escape_char s) @ CHR 0x22 # rest) = Some (s, rest)"
  by (induction s) (simp_all add: lex_string_escape_char)

lemma lex_json_string:
  "lex (json_string s @ rest) = map_option (Cons (TString s)) (lex rest)"
  by (simp add: json_string_def is_space_def lex_string_escaped)

lemma lex_spaces: "lex (replicate k CHR '' '' @ rest) = lex rest"
  by (induction k) (simp_all add: is_space_def)

lemma lex_newline_indent: "lex (newline_indent level @ rest) = lex rest"
  by (simp add: newline_indent_def is_space_def lex_spaces)

lemma lex_number:
  assumes "t \<noteq> []" and "list_all is_number_char t"
      and "rest = [] \<or> \<not> is_number_char (hd rest)"
      and "\<not> is_space (hd t)"
  shows "lex (t @ rest) = map_option (Cons (TNumber t)) (lex rest)"
proof -
  from assms(1) obtain c cs where t: "t = c # cs" by (cases t) auto
  with assms(2) have c: "is_number_char c" and cs: "\<forall>x\<in>set cs. is_number_char x"
    by (auto simp: list_all_iff)
  from c have nb: "c \<noteq> CHR ''{''" "c \<noteq> CHR ''}''" "c \<noteq> CHR '':''" "c \<noteq> CHR '',''" "c \<noteq> CHR 0x22"
    by (auto simp: is_number_char_def)
  have tw: "takeWhile is_number_char (cs @ rest) = cs"
    using cs assms(3) by (cases rest) (auto simp: takeWhile_append2 takeWhile_eq_all_conv)
  have dw: "dropWhile is_number_char (cs @ rest) = rest"
    using cs assms(3) by (cases rest) (auto simp: dropWhile_append2)
  from assms(4) t have "\<not> is_space c" by simp
  with c nb tw dw show ?thesis by (simp add: t)
qed

lemma of_char_digit: "n < 10 \<Longrightarrow> (of_char (digit n) :: nat) = 48 + n"
  by (simp add: digit_def)

lemma digit_neq: "n < 10 \<Longrightarrow> (of_char c :: nat) < 48 \<Longrightarrow> digit n \<noteq> c"
proof
  assume "n < 10" and "(of_char c :: nat) < 48" and "digit n = c"
  then have "(of_char c :: nat) = 48 + n" using of_char_digit[of n] by simp
  with \<open>(of_char c :: nat) < 48\<close> show False by simp
qed

lemma digit_is_number_char: "n < 10 \<Longrightarrow> is_number_char (digit n) \<and> \<not> is_space (digit n)"
  by (simp add: is_number_char_def is_space_def of_char_digit digit_neq)

lemma decimal_props:
  "decimal n \<noteq> [] \<and> list_all is_number_char (decimal n) \<and> \<not> is_space (hd (decimal n)) \<and>
   hd (decimal n) \<noteq> CHR ''-''"
proof (induction n rule: decimal.induct)
  case (1 n)
  show ?case
  proof (cases "n < 10")
    case True
    then have "decimal n = [digit n]" by (simp add: decimal.simps)
    moreover have "digit n \<noteq> CHR ''-''"
      using True by (simp add: digit_neq)
    ultimately show ?thesis using digit_is_number_char[OF True] by simp
  next
    case False
    then have d: "decimal n = decimal (n div 10) @ [digit (n mod 10)]"
      by (subst decimal.simps) simp
    from "1.IH"[OF False] digit_is_number_char[of "n mod 10"] show ?thesis
      by (simp add: d)
  qed
qed

lemma undecimal_append: "undecimal (ds @ [c]) = 10 * undecimal ds + (of_char c - 48)"
  by (simp add: undecimal_def)

lemma undecimal_decimal: "undecimal (decimal n) = n"
proof (induction n rule: decimal.induct)
  case (1 n)
  show ?case
  proof (cases "n < 10")
    case True
    then show ?thesis by (simp add: decimal.simps undecimal_def of_char_digit)
  next
    case False
    then have d: "decimal n = decimal (n div 10) @ [digit (n mod 10)]"
      by (subst decimal.simps) simp
    from "1.IH"[OF False] show ?thesis
      by (simp add: d undecimal_append of_char_digit)
  qed
qed

lemma int_repr_props:
  "int_repr i \<noteq> [] \<and> list_all is_number_char (int_repr i) \<and> \<not> is_space (hd (int_repr i))"
  using decimal_props[of "nat i"] decimal_props[of "nat (- i)"]
  by (simp add: int_repr_def is_number_char_def is_space_def)

lemma int_of_token_int_repr: "int_of_token (int_repr i) = Some i"
proof (cases "i < 0")
  case True
  then have r: "int_repr i = CHR ''-'' # decimal (nat (- i))" by (simp add: int_repr_def)
  have "decimal (nat (- i)) \<noteq> ''0''"
  proof
    assume "decimal (nat (- i)) = ''0''"
    then have "undecimal (decimal (nat (- i))) = undecimal ''0''" by simp
    then have "nat (- i) = undecimal ''0''" by (simp only: undecimal_decimal)
    with True show False by (simp add: undecimal_def)
  qed
  with True show ?thesis
    by (simp add: int_of_token_def r undecimal_decimal)
next
  case False
  then have r: "int_repr i = decimal (nat i)" by (simp add: int_repr_def)
  obtain c ds where cd: "decimal (nat i) = c # ds" "c \<noteq> CHR ''-''"
    using decimal_props[of "nat i"] by (cases "decimal (nat i)") auto
  have "int (undecimal (c # ds)) = i"
    using undecimal_decimal[of "nat i"] False by (simp add: cd)
  with cd r False show ?thesis
    by (simp add: int_of_token_def)
qed

lemma lex_number':
  assumes "t \<noteq> []" and "list_all is_number_char t"
      and "rest = [] \<or> \<not> is_number_char (hd rest)"
  shows "lex (t @ rest) = map_option (Cons (TNumber t)) (lex rest)"
proof -
  from assms(1,2) have "is_number_char (hd t)" by (cases t) auto
  then have "\<not> is_space (hd t)"
    by (auto simp: is_number_char_def is_space_def)
  with assms show ?thesis by (rule lex_number)
qed

lemma lex_true: "lex (''true'' @ rest) = map_option (Cons TTrue) (lex rest)"
  by (simp add: is_space_def is_number_char_def)

lemma lex_false: "lex (''false'' @ rest) = map_option (Cons TFalse) (lex rest)"
  by (simp add: is_space_def is_number_char_def)

lemma lex_punct:
  "lex (CHR ''{'' # rest) = map_option (Cons LBrace) (lex rest)"
  "lex (CHR ''}'' # rest) = map_option (Cons RBrace) (lex rest)"
  "lex (CHR '':'' # rest) = map_option (Cons Colon) (lex rest)"
  "lex (CHR '','' # rest) = map_option (Cons Comma) (lex rest)"
  "lex (CHR '' '' # rest) = lex rest"
  by (simp_all add: is_space_def)

lemma not_number_char:
  "\<not> is_number_char (CHR '','')" "\<not> is_number_char (CHR 0x0A)"
  by (simp_all add: is_number_char_def)

lemma lex_json_text:
  "wf_json fr fp v \<Longrightarrow> rest = [] \<or> \<not> is_number_char (hd rest) \<Longrightarrow>
     lex (json_text fr level v @ rest) = map_option ((@) (tokens fr v)) (lex rest)"
  "wf_members fr fp kvs \<Longrightarrow> kvs \<noteq> [] \<Longrightarrow> rest = [] \<or> \<not> is_number_char (hd rest) \<Longrightarrow>
     lex (json_members fr level kvs @ rest) = map_option ((@) (member_tokens fr kvs)) (lex rest)"
proof (induction fr level v and fr level kvs arbitrary: rest and rest
        rule: json_text_json_members.induct)
  case (1 float_repr level s)
  show ?case by (simp add: lex_json_string option.map_comp comp_def)
next
  case (2 float_repr level i)
  from lex_number'[of "int_repr i" rest] int_repr_props[of i] "2.prems"(2)
  show ?case by (simp add: option.map_comp comp_def)
next
  case (3 float_repr level x)
  from "3.prems" lex_number'[of "float_repr x" rest]
  show ?case by (simp add: float_token_ok_def option.map_comp comp_def)
next
  case (4 float_repr level b)
  show ?case
    using lex_true[of rest] lex_false[of rest]
    by (cases b) (simp_all del: lex.simps add: option.map_comp comp_def)
next
  case (5 float_repr level)
  show ?case by (simp add: is_space_def option.map_comp comp_def)
next
  case (6 float_repr level kv kvs)
  from "6.prems" have wf: "wf_members float_repr fp (kv # kvs)" by simp
  have "lex (json_members float_repr (Suc level) (kv # kvs)
           @ (newline_indent level @ CHR ''}'' # rest))
      = map_option ((@) (member_tokens float_repr (kv # kvs)))
          (lex (newline_indent level @ CHR ''}'' # rest))"
    by (rule "6.IH"[OF wf]) (simp_all add: newline_indent_def not_number_char)
  then show ?case
    by (simp del: lex.simps json_members.simps member_tokens.simps
          add: lex_punct lex_newline_indent option.map_comp comp_def)
next
  case (7 float_repr level)
  then show ?case by simp
next
  case (8 float_repr level k v)
  from "8.prems" have wf: "wf_json float_repr fp v" by simp
  from "8.IH"[OF wf "8.prems"(3)] show ?case
    by (simp del: lex.simps add: lex_json_string lex_punct option.map_comp comp_def)
next
  case (9 float_repr level k v kv kvs)
  from "9.prems" have wfv: "wf_json float_repr fp v" and
    wfm: "wf_members float_repr fp (kv # kvs)" by simp_all
  have a: "lex (json_text float_repr level v @
             (CHR '','' # newline_indent level @ json_members float_repr level (kv # kvs) @ rest))
      = map_option ((@) (tokens float_repr v))
          (lex (CHR '','' # newline_indent level @ json_members float_repr level (kv # kvs) @ rest))"
    by (rule "9.IH"(1)[OF wfv]) (simp add: not_number_char)
  have b: "lex (json_members float_repr level (kv # kvs) @ rest)
      = map_option ((@) (member_tokens float_repr (kv # kvs))) (lex rest)"
    by (rule "9.IH"(2)[OF wfm _ "9.prems"(3)]) simp
  from a b show ?case
    by (simp del: lex.simps json_members.simps member_tokens.simps
          add: json_members.simps(3) member_tokens.simps(3)
               lex_json_string lex_punct lex_newline_indent option.map_comp comp_def)
qed

lemma dict_set_new: "k \<notin> fst ` set d \<Longrightarrow> dict_set d k v = d @ [(k, v)]"
  by (induction d) auto

lemma foldl_dict_set_distinct:
  "distinct (map fst (d @ kvs)) \<Longrightarrow> foldl (\<lambda>d (k, v). dict_set d k v) d kvs = d @ kvs"
proof (induction kvs arbitrary: d)
  case Nil
  then show ?case by simp
next
  case (Cons kv kvs)
  obtain k v where kv: "kv = (k, v)" by (cases kv)
  from Cons.prems kv have new: "k \<notin> fst ` set d" by auto
  from Cons.prems kv have "distinct (map fst ((d @ [(k, v)]) @ kvs))" by auto
  from Cons.IH[OF this] new kv show ?case by (simp add: dict_set_new)
qed

lemma object_of_distinct: "distinct (map fst kvs) \<Longrightarrow> object_of kvs = JObject kvs"
  using foldl_dict_set_distinct[of "[]" kvs] by (simp add: object_of_def)

lemma number_value_int: "number_value fp (int_repr i) = Some (JInt i)"
  by (simp add: number_value_def int_of_token_int_repr)

lemma number_value_float: "float_token_ok fr fp x \<Longrightarrow> number_value fp (fr x) = Some (JFloat x)"
  by (simp add: number_value_def float_token_ok_def)

lemma member_tokens_head:
  "kvs \<noteq> [] \<Longrightarrow> \<exists>k ts. member_tokens fr kvs = TString k # Colon # ts"
proof -
  assume "kvs \<noteq> []"
  then obtain k v kvs' where "kvs = (k, v) # kvs'" by (cases kvs) auto
  then show ?thesis by (cases kvs') auto
qed

lemma parse_tokens:
  "wf_json fr fp v \<Longrightarrow> length (tokens fr v) \<le> n \<Longrightarrow>
     parse_value fp (Suc n) (tokens fr v @ rest) = Some (v, rest)"
  "wf_members fr fp kvs \<Longrightarrow> kvs \<noteq> [] \<Longrightarrow> length (member_tokens fr kvs) \<le> n \<Longrightarrow>
     parse_members fp (Suc n) (member_tokens fr kvs @ RBrace # rest) = Some (kvs, rest)"
proof (induction fr v and fr kvs arbitrary: n rest and n rest rule: tokens_member_tokens.induct)
  case (1 fr s)
  show ?case by simp
next
  case (2 fr i)
  show ?case by (simp add: number_value_int)
next
  case (3 fr x)
  then show ?case by (simp add: number_value_float)
next
  case (4 fr b)
  show ?case by simp
next
  case (5 fr kvs)
  show ?case
  proof (cases kvs)
    case Nil
    then show ?thesis by simp
  next
    case (Cons kv kvs')
    from "5.prems" have wf: "wf_members fr fp kvs" and d: "distinct (map fst kvs)" by simp_all
    from "5.prems"(2) obtain m where n: "n = Suc m" and m: "length (member_tokens fr kvs) \<le> m"
      by (cases n) auto
    from Cons have ne: "kvs \<noteq> []" by simp
    from member_tokens_head[OF ne, of fr] obtain k ts where
      h: "member_tokens fr kvs = TString k # Colon # ts" by blast
    have "parse_members fp (Suc m) (member_tokens fr kvs @ RBrace # rest) = Some (kvs, rest)"
      by (rule "5.IH"[OF wf ne m])
    then have "parse_value fp (Suc n) (LBrace # member_tokens fr kvs @ RBrace # rest)
        = Some (object_of kvs, rest)"
      by (simp add: n h)
    with d show ?thesis by (simp add: object_of_distinct)
  qed
next
  case (6 fr)
  then show ?case by simp
next
  case (7 fr k v)
  from "7.prems" have wf: "wf_json fr fp v" by simp
  from "7.prems"(3) obtain m where n: "n = Suc m" and m: "length (tokens fr v) \<le> m"
    by (cases n) auto
  from "7.IH"[OF wf m, of "RBrace # rest"] show ?case by (simp add: n)
next
  case (8 fr k v kv kvs)
  from "8.prems" have wfv: "wf_json fr fp v" and wfm: "wf_members fr fp (kv # kvs)"
    by simp_all
  from "8.prems"(3) obtain m where n: "n = Suc m" and
    m1: "length (tokens fr v) \<le> m" and m2: "length (member_tokens fr (kv # kvs)) \<le> m"
    by (cases n) auto
  have a: "parse_value fp (Suc m)
             (tokens fr v @ Comma # member_tokens fr (kv # kvs) @ RBrace # rest)
      = Some (v, Comma # member_tokens fr (kv # kvs) @ RBrace # rest)"
    by (rule "8.IH"(1)[OF wfv m1])
  have b: "parse_members fp (Suc m) (member_tokens fr (kv # kvs) @ RBrace # rest)
      = Some (kv # kvs, rest)"
    by (rule "8.IH"(2)[OF wfm _ m2]) simp
  from a b show ?case
    by (simp add: n del: member_tokens.simps add: member_tokens.simps(3))
qed

lemma json_loads_json_text:
  assumes "wf_json fr fp v"
  shows "json_loads fp (json_text fr 0 v) = Some v"
proof -
  from lex_json_text(1)[OF assms, of "[]" 0] have "lex (json_text fr 0 v) = Some (tokens fr v)"
    by simp
  moreover from parse_tokens(1)[OF assms, of "length (tokens fr v)" "[]"]
  have "parse_value fp (Suc (length (tokens fr v))) (tokens fr v) = Some (v, [])" by simp
  ultimately show ?thesis by (simp add: json_loads_def)
qed

lemma wf_report:
  assumes "distinct (dict_keys results)"
      and "\<forall>(k, entry) \<in> set results. float_token_ok fr fp (duration entry)"
  shows "wf_json fr fp (report config results)"
proof -
  have "wf_members fr fp
      (map (\<lambda>(k, entry). (k, JObject [(''completed'', JBool (completed entry)),
                                       (''duration'', JFloat (duration entry))])) rs)"
    if "\<forall>(k, entry) \<in> set rs. float_token_ok fr fp (duration entry)" for rs
    using that by (induction rs) auto
  moreover have "map fst (map (\<lambda>(k, entry). (k, JObject [(''completed'', JBool (completed entry)),
                                       (''duration'', JFloat (duration entry))])) results)
      = dict_keys results"
    by (simp add: dict_keys_def comp_def case_prod_unfold)
  ultimately show ?thesis using assms by (simp add: report_def)
qed








subsection \<open>Duplicate identifiers\<close>

lemma run_loop_logged:
  "run_loop R r xs res w = (Inr res', w') \<Longrightarrow>
     logged w' = logged w @
       concat (map (\<lambda>i. [Starting_experiment (xs ! i),
                          Completed_experiment (xs ! i)
                            (float_sub (wall_clock w (Suc (time_reads w + 2 * i)))
                                       (wall_clock w (time_reads w + 2 * i)))])
                 [0..<length xs])"
proof (induction xs arbitrary: res w)
  case Nil
  then show ?case by simp
next
  case (Cons x xs)
  let ?d = "float_sub (wall_clock w (Suc (time_reads w))) (wall_clock w (time_reads w))"
  from Cons.prems obtain w1 where
    step: "run_loop R r xs (dict_set res x \<lparr>completed = True, duration = ?d\<rparr>) w1 = (Inr res', w')" and
    w1: "logged w1 = logged w @ [Starting_experiment x, Completed_experiment x ?d]"
        "time_reads w1 = time_reads w + 2" "wall_clock w1 = wall_clock w"
    by (auto simp: Let_def time_time_def call_run_experiment_def logger_info_def
          split: prod.splits sum.splits)
  have u: "[0..<length (x # xs)] = 0 # map Suc [0..<length xs]"
    by (simp add: upt_conv_Cons map_Suc_upt del: upt_Suc)
  from Cons.IH[OF step] w1 show ?case
    unfolding u by (simp add: comp_def)
qed

lemma run_experiments_logged:
  assumes "run_experiments R config xs w = (Inr res, w')"
  shows "logged w' = logged w @
       concat (map (\<lambda>i. [Starting_experiment (xs ! i),
                          Completed_experiment (xs ! i)
                            (float_sub (wall_clock w (Suc (time_reads w + 2 * i)))
                                       (wall_clock w (time_reads w + 2 * i)))])
                 [0..<length xs])"
proof -
  from assms obtain runner w1 where
    c: "ForgettingExperimentRunner R config w = (Inr runner, w1)" and
    l: "run_loop R runner xs [] w1 = (Inr res, w')"
    by (auto simp: run_experiments_def split: prod.splits sum.splits)
  from run_loop_logged[OF l] construct_frame(2,3,6)[OF c] show ?thesis by simp
qed

lemma dict_get_map_entries:
  "dict_get (map (\<lambda>(k, entry). (k, f entry)) d) k = map_option f (dict_get d k)"
  by (induction d) auto

text \<open>
  C7. Whenever \<^verbatim>\<open>run_experiments\<close> returns and \<^verbatim>\<open>generate_report\<close> then returns, the runner
  has been called once for every occurrence of an identifier in the request, in order:
  its state is that of one call of \<^verbatim>\<open>run_experiment\<close> after another, one per occurrence.
  Each occurrence stands between two clock readings of its own, and the log has its
  start and its completion with the duration measured for it, which is the float
  difference of its two readings. The dictionary has one entry per distinct identifier,
  in the order of first occurrence, and the entry of an identifier holds the duration
  measured at its last occurrence. The report file reads back as a document whose
  \<^verbatim>\<open>experiments\<close> object has exactly one member per distinct identifier, and the member
  of an identifier is \<^verbatim>\<open>{'completed': true, 'duration': d}\<close> with \<open>d\<close> the duration of its
  last occurrence. The floats are read back by \<open>float_parse\<close>, of which the theorem
  needs that it inverts \<open>float_repr\<close> on the durations written.
\<close>

theorem duplicates_run_each_time_last_one_kept:
  assumes "run_experiments R config experiments w = (Inr results, w1)"
      and "generate_report float_repr config results w1 = (Inr (), w2)"
      and "\<forall>(k, entry) \<in> set results. float_token_ok float_repr float_parse (duration entry)"
  shows "invoked w1 = invoked w @ map (Pair config) experiments \<and>
         (heap w1, ext w1)
           = foldl (\<lambda>s x. snd (run_experiment R config x s))
               (snd (construct R config (heap w, ext w))) experiments \<and>
         time_reads w1 = time_reads w + 2 * length experiments \<and>
         logged w1 = logged w @
           concat (map (\<lambda>i. [Starting_experiment (experiments ! i),
                              Completed_experiment (experiments ! i)
                                (float_sub (wall_clock w (Suc (time_reads w + 2 * i)))
                                           (wall_clock w (time_reads w + 2 * i)))])
                     [0..<length experiments]) \<and>
         dict_keys results = first_occurrences experiments \<and>
         distinct (dict_keys results) \<and> set (dict_keys results) = set experiments \<and>
         (\<forall>i<length experiments.
            (\<forall>j. i < j \<and> j < length experiments \<longrightarrow> experiments ! j \<noteq> experiments ! i) \<longrightarrow>
            dict_get results (experiments ! i)
              = Some \<lparr>completed = True,
                       duration = float_sub (wall_clock w (Suc (time_reads w + 2 * i)))
                                            (wall_clock w (time_reads w + 2 * i))\<rparr>) \<and>
         (\<exists>text doc es.
            files (fs w2) (os_path_join (output_dir (heap w1 config)) ''experiment_report.json'')
              = Some text \<and>
            json_loads float_parse text = Some doc \<and>
            json_get doc ''experiments'' = Some (JObject es) \<and>
            map fst es = first_occurrences experiments \<and> distinct (map fst es) \<and>
            (\<forall>i<length experiments.
               (\<forall>j. i < j \<and> j < length experiments \<longrightarrow> experiments ! j \<noteq> experiments ! i) \<longrightarrow>
               json_get (JObject es) (experiments ! i)
                 = Some (JObject
                     [(''completed'', JBool True),
                      (''duration'',
                         JFloat (float_sub (wall_clock w (Suc (time_reads w + 2 * i)))
                                           (wall_clock w (time_reads w + 2 * i))))])))"
proof -
  let ?path = "os_path_join (output_dir (heap w1 config)) ''experiment_report.json''"
  let ?doc = "report (heap w1 config) results"
  let ?entry = "\<lambda>entry. JObject [(''completed'', JBool (completed entry)),
                                   (''duration'', JFloat (duration entry))]"
  let ?es = "map (\<lambda>(k, entry). (k, ?entry entry)) results"
  let ?d = "\<lambda>i. float_sub (wall_clock w (Suc (time_reads w + 2 * i)))
                           (wall_clock w (time_reads w + 2 * i))"
  let ?last = "\<lambda>i. \<forall>j. i < j \<and> j < length experiments \<longrightarrow> experiments ! j \<noteq> experiments ! i"
  note r = run_experiments_returns[OF assms(1)]
  have keys: "dict_keys results = first_occurrences experiments"
    using r(1) by (simp add: dict_keys_recorded) (simp add: dict_keys_def)
  have dist: "distinct (dict_keys results)"
    by (simp add: keys first_occurrences_distinct)
  have elems: "set (dict_keys results) = set experiments"
    by (simp add: keys first_occurrences_set)
  have lasts: "\<forall>i<length experiments. ?last i \<longrightarrow>
      dict_get results (experiments ! i) = Some \<lparr>completed = True, duration = ?d i\<rparr>"
    by (simp add: r(1) dict_get_recorded_last)
  have written: "files (fs w2) ?path = Some (json_text float_repr 0 ?doc)"
    by (rule generate_report_file[OF assms(2)])
  have loads: "json_loads float_parse (json_text float_repr 0 ?doc) = Some ?doc"
    by (rule json_loads_json_text[OF wf_report[OF dist assms(3)]])
  have exps: "json_get ?doc ''experiments'' = Some (JObject ?es)"
    by (simp add: report_def)
  have fst_es: "map fst ?es = first_occurrences experiments"
    using keys by (simp add: dict_keys_def comp_def case_prod_unfold)
  have dist_es: "distinct (map fst ?es)"
    by (simp only: fst_es first_occurrences_distinct)
  have members: "\<forall>i<length experiments. ?last i \<longrightarrow>
      json_get (JObject ?es) (experiments ! i)
        = Some (JObject [(''completed'', JBool True), (''duration'', JFloat (?d i))])"
    using lasts by (simp add: dict_get_map_entries)
  from written loads exps fst_es dist_es members
  have persisted: "\<exists>text doc es.
            files (fs w2) ?path = Some text \<and>
            json_loads float_parse text = Some doc \<and>
            json_get doc ''experiments'' = Some (JObject es) \<and>
            map fst es = first_occurrences experiments \<and> distinct (map fst es) \<and>
            (\<forall>i<length experiments. ?last i \<longrightarrow>
               json_get (JObject es) (experiments ! i)
                 = Some (JObject [(''completed'', JBool True), (''duration'', JFloat (?d i))]))"
    by blast
  from r(2) r(7) r(3) run_experiments_logged[OF assms(1)] keys dist elems lasts persisted
  show ?thesis by (intro conjI)
qed

lemma whole_seconds_ok:
  "float_token_ok whole_seconds_repr whole_seconds_parse 5"
  "float_token_ok whole_seconds_repr whole_seconds_parse 9"
  by code_simp+

theorem duplicates_run_each_time_last_one_kept_witness:
  "fst (run_experiments obliging_runner 0
          [''privacy_impact'', ''scalability_test'', ''privacy_impact'']
          (start_world\<lparr>wall_clock := (\<lambda>n. of_nat (n * n)),
                        fs := empty_disk\<lparr>dirs := {''./results''}\<rparr>\<rparr>))
     = Inr [(''privacy_impact'', \<lparr>completed = True, duration = 9\<rparr>),
            (''scalability_test'', \<lparr>completed = True, duration = 5\<rparr>)] \<and>
   fst (generate_report whole_seconds_repr 0
          [(''privacy_impact'', \<lparr>completed = True, duration = 9\<rparr>),
           (''scalability_test'', \<lparr>completed = True, duration = 5\<rparr>)]
          (snd (run_experiments obliging_runner 0
             [''privacy_impact'', ''scalability_test'', ''privacy_impact'']
             (start_world\<lparr>wall_clock := (\<lambda>n. of_nat (n * n)),
                           fs := empty_disk\<lparr>dirs := {''./results''}\<rparr>\<rparr>)))) = Inr () \<and>
   list_all (\<lambda>(k, entry). float_token_ok whole_seconds_repr whole_seconds_parse (duration entry))
     [(''privacy_impact'', \<lparr>completed = True, duration = 9\<rparr>),
      (''scalability_test'', \<lparr>completed = True, duration = 5\<rparr>)] \<and>
   invoked (snd (run_experiments obliging_runner 0
          [''privacy_impact'', ''scalability_test'', ''privacy_impact'']
          (start_world\<lparr>wall_clock := (\<lambda>n. of_nat (n * n)),
                        fs := empty_disk\<lparr>dirs := {''./results''}\<rparr>\<rparr>)))
     = [(0, ''privacy_impact''), (0, ''scalability_test''), (0, ''privacy_impact'')] \<and>
   time_reads (snd (run_experiments obliging_runner 0
          [''privacy_impact'', ''scalability_test'', ''privacy_impact'']
          (start_world\<lparr>wall_clock := (\<lambda>n. of_nat (n * n)),
                        fs := empty_disk\<lparr>dirs := {''./results''}\<rparr>\<rparr>))) = 6 \<and>
   logged (snd (run_experiments obliging_runner 0
          [''privacy_impact'', ''scalability_test'', ''privacy_impact'']
          (start_world\<lparr>wall_clock := (\<lambda>n. of_nat (n * n)),
                        fs := empty_disk\<lparr>dirs := {''./results''}\<rparr>\<rparr>)))
     = [Starting_experiment ''privacy_impact'', Completed_experiment ''privacy_impact'' 1,
        Starting_experiment ''scalability_test'', Completed_experiment ''scalability_test'' 5,
        Starting_experiment ''privacy_impact'', Completed_experiment ''privacy_impact'' 9] \<and>
   (\<exists>text doc es.
      files (fs (snd (generate_report whole_seconds_repr 0
          [(''privacy_impact'', \<lparr>completed = True, duration = 9\<rparr>),
           (''scalability_test'', \<lparr>completed = True, duration = 5\<rparr>)]
          (snd (run_experiments obliging_runner 0
             [''privacy_impact'', ''scalability_test'', ''privacy_impact'']
             (start_world\<lparr>wall_clock := (\<lambda>n. of_nat (n * n)),
                           fs := empty_disk\<lparr>dirs := {''./results''}\<rparr>\<rparr>))))))
        ''./results/experiment_report.json'' = Some text \<and>
      json_loads whole_seconds_parse text = Some doc \<and>
      json_get doc ''experiments'' = Some (JObject es) \<and>
      map fst es = [''privacy_impact'', ''scalability_test''] \<and>
      json_get (JObject es) ''privacy_impact''
        = Some (JObject [(''completed'', JBool True), (''duration'', JFloat 9)]) \<and>
      json_get (JObject es) ''scalability_test''
        = Some (JObject [(''completed'', JBool True), (''duration'', JFloat 5)]))"
proof -
  let ?w = "start_world\<lparr>wall_clock := (\<lambda>n. of_nat (n * n)),
                         fs := empty_disk\<lparr>dirs := {''./results''}\<rparr>\<rparr>"
  let ?xs = "[''privacy_impact'', ''scalability_test'', ''privacy_impact'']"
  let ?res = "[(''privacy_impact'', \<lparr>completed = True, duration = (9::rat)\<rparr>),
               (''scalability_test'', \<lparr>completed = True, duration = 5\<rparr>)]"
  let ?run = "run_experiments obliging_runner 0 ?xs ?w"
  let ?gen = "generate_report whole_seconds_repr 0 ?res (snd ?run)"
  let ?d = "\<lambda>i. float_sub (wall_clock ?w (Suc (time_reads ?w + 2 * i)))
                           (wall_clock ?w (time_reads ?w + 2 * i))"
  have f: "fst ?run = Inr ?res"
    by (simp add: run_defs obliging_runner_def start_world_def)
  have run: "?run = (Inr ?res, snd ?run)"
    by (rule prod_eqI) (simp_all only: fst_conv snd_conv f)
  have frame: "fs (snd ?run) = fs ?w"
    using run_experiments_frame[of obliging_runner 0 ?xs ?w] by blast
  have "(heap (snd ?run), ext (snd ?run)) = (heap ?w, ext ?w)"
    using run_experiments_returns(7)[OF run] by (simp add: obliging_runner_def)
  then have h: "heap (snd ?run) 0 = default_config"
    by (simp add: heap_start_world)
  with frame have g: "fst ?gen = Inr ()"
    by (simp add: generate_report_def default_config_def start_world_def empty_disk_def
        open_w_def write_close_def os_path_join_def dirname_def rstrip_sep_def Let_def)
  have gen: "?gen = (Inr (), snd ?gen)"
    by (rule prod_eqI) (simp_all only: fst_conv snd_conv g)
  have ok: "\<forall>(k, entry) \<in> set ?res.
      float_token_ok whole_seconds_repr whole_seconds_parse (duration entry)"
    by (simp add: whole_seconds_ok)
  have p: "os_path_join (output_dir default_config) ''experiment_report.json''
         = ''./results/experiment_report.json''"
    by (simp add: default_config_def os_path_join_def)
  have d: "?d 0 = 1" "?d 1 = 5" "?d 2 = 9"
    by (simp_all add: start_world_def float_sub_values)
  have fo: "first_occurrences ?xs = [''privacy_impact'', ''scalability_test'']"
    by simp
  note t = duplicates_run_each_time_last_one_kept[OF run gen ok]
  from t have a: "invoked (snd ?run) = invoked ?w @ map (Pair 0) ?xs"
    by (elim conjE) assumption
  from t have b: "time_reads (snd ?run) = time_reads ?w + 2 * length ?xs"
    by (elim conjE) assumption
  from t have c: "logged (snd ?run) = logged ?w @
           concat (map (\<lambda>i. [Starting_experiment (?xs ! i), Completed_experiment (?xs ! i) (?d i)])
                     [0..<length ?xs])"
    by (elim conjE) assumption
  from t obtain content doc es where
    e: "files (fs (snd ?gen)) (os_path_join (output_dir (heap (snd ?run) 0)) ''experiment_report.json'')
          = Some content"
       "json_loads whole_seconds_parse content = Some doc"
       "json_get doc ''experiments'' = Some (JObject es)"
       "map fst es = first_occurrences ?xs" and
    m: "\<forall>i<length ?xs.
          (\<forall>j. i < j \<and> j < length ?xs \<longrightarrow> ?xs ! j \<noteq> ?xs ! i) \<longrightarrow>
          json_get (JObject es) (?xs ! i)
            = Some (JObject [(''completed'', JBool True), (''duration'', JFloat (?d i))])"
    by (elim conjE exE) blast
  have "json_get (JObject es) (?xs ! 2)
            = Some (JObject [(''completed'', JBool True), (''duration'', JFloat (?d 2))])"
  proof (rule m[rule_format, of 2])
    show "2 < length ?xs" by simp
  next
    fix j :: nat assume "2 < j \<and> j < length ?xs"
    then show "?xs ! j \<noteq> ?xs ! 2" by simp
  qed
  then have m2: "json_get (JObject es) ''privacy_impact''
        = Some (JObject [(''completed'', JBool True), (''duration'', JFloat 9)])"
    by (simp only: d) simp
  have "json_get (JObject es) (?xs ! 1)
            = Some (JObject [(''completed'', JBool True), (''duration'', JFloat (?d 1))])"
  proof (rule m[rule_format, of 1])
    show "1 < length ?xs" by simp
  next
    fix j :: nat assume "1 < j \<and> j < length ?xs"
    then have "j = 2" by simp
    then show "?xs ! j \<noteq> ?xs ! 1" by simp
  qed
  then have m1: "json_get (JObject es) ''scalability_test''
        = Some (JObject [(''completed'', JBool True), (''duration'', JFloat 5)])"
    by (simp only: d) simp
  from a have a': "invoked (snd ?run)
      = [(0, ''privacy_impact''), (0, ''scalability_test''), (0, ''privacy_impact'')]"
    by (simp add: start_world_def)
  from b have b': "time_reads (snd ?run) = 6"
    by (simp add: start_world_def)
  have u: "[0..<length ?xs] = [0, 1, 2]"
    by (simp add: upt_rec)
  from c have c': "logged (snd ?run)
     = [Starting_experiment ''privacy_impact'', Completed_experiment ''privacy_impact'' 1,
        Starting_experiment ''scalability_test'', Completed_experiment ''scalability_test'' 5,
        Starting_experiment ''privacy_impact'', Completed_experiment ''privacy_impact'' 9]"
    unfolding u by (simp only: list.map concat.simps d) (simp add: start_world_def)
  from e(1) have e1: "files (fs (snd ?gen)) ''./results/experiment_report.json'' = Some content"
    unfolding h p .
  from e1 e(2,3) e(4)[unfolded fo] m2 m1
  have "\<exists>text doc es.
      files (fs (snd ?gen)) ''./results/experiment_report.json'' = Some text \<and>
      json_loads whole_seconds_parse text = Some doc \<and>
      json_get doc ''experiments'' = Some (JObject es) \<and>
      map fst es = [''privacy_impact'', ''scalability_test''] \<and>
      json_get (JObject es) ''privacy_impact''
        = Some (JObject [(''completed'', JBool True), (''duration'', JFloat 9)]) \<and>
      json_get (JObject es) ''scalability_test''
        = Some (JObject [(''completed'', JBool True), (''duration'', JFloat 5)])"
    by (intro exI conjI)
  with f g ok a' b' c' show ?thesis
    by (simp only: list_all_iff)
qed

subsection \<open>The configuration\<close>

lemma leaves_configurationD:
  assumes "leaves_configuration R config"
  shows "construct R config (h, x) = (q, h', x') \<Longrightarrow> h' config = h config"
    and "run_experiment R config experiment (h, x) = (q', h', x') \<Longrightarrow> h' config = h config"
proof -
  from assms have
    c: "\<And>s. fst (snd (construct R config s)) config = fst s config" and
    r: "\<And>experiment s. fst (snd (run_experiment R config experiment s)) config = fst s config"
    unfolding leaves_configuration_def by blast+
  show "construct R config (h, x) = (q, h', x') \<Longrightarrow> h' config = h config"
    using c[of "(h, x)"] by simp
  show "run_experiment R config experiment (h, x) = (q', h', x') \<Longrightarrow> h' config = h config"
    using r[of "experiment" "(h, x)"] by simp
qed

lemma run_loop_prefix:
  "run_loop R r xs res w = (out, w') \<Longrightarrow>
     \<exists>n\<le>length xs.
       (\<not> isl out \<longrightarrow> n = length xs) \<and>
       invoked w' = invoked w @ map (Pair (held_config r)) (take n xs) \<and>
       (heap w', ext w')
         = foldl (\<lambda>s x. snd (run_experiment R (held_config r) x s)) (heap w, ext w) (take n xs) \<and>
       (leaves_configuration R (held_config r) \<longrightarrow>
          observed w' = observed w @ replicate n (heap w (held_config r)) \<and>
          heap w' (held_config r) = heap w (held_config r))"
proof (induction xs arbitrary: res w)
  case Nil
  then show ?case by auto
next
  case (Cons x xs)
  let ?c = "held_config r"
  obtain q h e where call: "run_experiment R ?c x (heap w, ext w) = (q, h, e)"
    by (cases "run_experiment R ?c x (heap w, ext w)")
  have keep: "leaves_configuration R ?c \<longrightarrow> h ?c = heap w ?c"
    using leaves_configurationD(2)[OF _ call] by blast
  show ?case
  proof (cases q)
    case (Inl err)
    with Cons.prems call have
      "out = Inl err" "invoked w' = invoked w @ [(?c, x)]" "heap w' = h" "ext w' = e"
      "observed w' = observed w @ [heap w ?c]"
      by (auto simp: Let_def time_time_def call_run_experiment_def logger_info_def)
    with call keep have
      "1 \<le> length (x # xs) \<and>
       (\<not> isl out \<longrightarrow> 1 = length (x # xs)) \<and>
       invoked w' = invoked w @ map (Pair ?c) (take 1 (x # xs)) \<and>
       (heap w', ext w')
         = foldl (\<lambda>s x. snd (run_experiment R ?c x s)) (heap w, ext w) (take 1 (x # xs)) \<and>
       (leaves_configuration R ?c \<longrightarrow>
          observed w' = observed w @ replicate 1 (heap w ?c) \<and> heap w' ?c = heap w ?c)"
      by simp
    then show ?thesis by blast
  next
    case (Inr p)
    let ?d = "float_sub (wall_clock w (Suc (time_reads w))) (wall_clock w (time_reads w))"
    from Cons.prems call Inr obtain w1 where
      step: "run_loop R r xs (dict_set res x \<lparr>completed = True, duration = ?d\<rparr>) w1 = (out, w')" and
      w1: "invoked w1 = invoked w @ [(?c, x)]" "heap w1 = h" "ext w1 = e"
          "observed w1 = observed w @ [heap w ?c]"
      by (auto simp: Let_def time_time_def call_run_experiment_def logger_info_def)
    from Cons.IH[OF step] obtain n where
      n: "n \<le> length xs" "\<not> isl out \<longrightarrow> n = length xs"
         "invoked w' = invoked w1 @ map (Pair ?c) (take n xs)"
         "(heap w', ext w')
            = foldl (\<lambda>s x. snd (run_experiment R ?c x s)) (heap w1, ext w1) (take n xs)"
         "leaves_configuration R ?c \<longrightarrow>
            observed w' = observed w1 @ replicate n (heap w1 ?c) \<and> heap w' ?c = heap w1 ?c"
      by blast
    from n w1 call keep have
      "Suc n \<le> length (x # xs) \<and>
       (\<not> isl out \<longrightarrow> Suc n = length (x # xs)) \<and>
       invoked w' = invoked w @ map (Pair ?c) (take (Suc n) (x # xs)) \<and>
       (heap w', ext w')
         = foldl (\<lambda>s x. snd (run_experiment R ?c x s)) (heap w, ext w) (take (Suc n) (x # xs)) \<and>
       (leaves_configuration R ?c \<longrightarrow>
          observed w' = observed w @ replicate (Suc n) (heap w ?c) \<and> heap w' ?c = heap w ?c)"
      by (simp add: replicate_app_Cons_same)
    then show ?thesis by blast
  qed
qed

lemma run_experiments_prefix:
  assumes "run_experiments R config xs w = (out, w')"
  shows "\<exists>n\<le>length xs.
       (\<not> isl out \<longrightarrow> n = length xs) \<and>
       invoked w' = invoked w @ map (Pair config) (take n xs) \<and>
       (heap w', ext w')
         = foldl (\<lambda>s x. snd (run_experiment R config x s))
             (snd (construct R config (heap w, ext w))) (take n xs) \<and>
       (leaves_configuration R config \<longrightarrow>
          observed w' = observed w @ replicate n (heap w config) \<and>
          heap w' config = heap w config)"
proof -
  obtain q w1 where c: "ForgettingExperimentRunner R config w = (q, w1)"
    by (cases "ForgettingExperimentRunner R config w")
  note f = construct_frame[OF c]
  obtain q0 h e where k: "construct R config (heap w, ext w) = (q0, h, e)"
    by (cases "construct R config (heap w, ext w)")
  with f(8) have he: "heap w1 = h" "ext w1 = e" by simp_all
  have keep: "leaves_configuration R config \<longrightarrow> heap w1 config = heap w config"
    using leaves_configurationD(1)[OF _ k] he by blast
  show ?thesis
  proof (cases q)
    case (Inl err)
    with assms c have "out = Inl err" "w' = w1"
      by (simp_all add: run_experiments_def)
    with f keep have
      "0 \<le> length xs \<and>
       (\<not> isl out \<longrightarrow> 0 = length xs) \<and>
       invoked w' = invoked w @ map (Pair config) (take 0 xs) \<and>
       (heap w', ext w')
         = foldl (\<lambda>s x. snd (run_experiment R config x s))
             (snd (construct R config (heap w, ext w))) (take 0 xs) \<and>
       (leaves_configuration R config \<longrightarrow>
          observed w' = observed w @ replicate 0 (heap w config) \<and>
          heap w' config = heap w config)"
      by simp
    then show ?thesis by blast
  next
    case (Inr runner)
    with assms c have l: "run_loop R runner xs [] w1 = (out, w')"
      by (simp add: run_experiments_def)
    from f(9)[OF Inr] have hc: "held_config runner = config" .
    from run_loop_prefix[OF l] obtain n where
      n: "n \<le> length xs" "\<not> isl out \<longrightarrow> n = length xs"
         "invoked w' = invoked w1 @ map (Pair config) (take n xs)"
         "(heap w', ext w')
            = foldl (\<lambda>s x. snd (run_experiment R config x s)) (heap w1, ext w1) (take n xs)"
         "leaves_configuration R config \<longrightarrow>
            observed w' = observed w1 @ replicate n (heap w1 config) \<and>
            heap w' config = heap w1 config"
      unfolding hc by blast
    from n f(1,7,8) keep have
      "n \<le> length xs \<and>
       (\<not> isl out \<longrightarrow> n = length xs) \<and>
       invoked w' = invoked w @ map (Pair config) (take n xs) \<and>
       (heap w', ext w')
         = foldl (\<lambda>s x. snd (run_experiment R config x s))
             (snd (construct R config (heap w, ext w))) (take n xs) \<and>
       (leaves_configuration R config \<longrightarrow>
          observed w' = observed w @ replicate n (heap w config) \<and>
          heap w' config = heap w config)"
      by simp
    then show ?thesis by blast
  qed
qed

lemma fold_print_ext:
  "ext (fold (\<lambda>(k, entry). print (summary_line k entry)) rs w) = ext w"
  by (induction rs arbitrary: w) (auto simp: print_def)

lemma generate_report_store:
  assumes "generate_report float_repr config results w = (r, w')"
  shows "invoked w' = invoked w" "observed w' = observed w" "heap w' = heap w" "ext w' = ext w"
  using assms
  by (auto simp: generate_report_def Let_def fold_print_frame fold_print_ext print_def logger_info_def
        split: sum.splits prod.splits)

text \<open>
  C8, as the code has it. \<^verbatim>\<open>main\<close> builds one configuration object and hands the runner
  a reference to it; Python does not freeze the object. The harness itself never
  assigns to it: whatever happens, the store and the runner's state at the end are
  either those at the start (when the output directory could not be made, and no
  configuration was built) or what the runner's constructor and its calls, for a prefix
  of the request in order (all of it when \<^verbatim>\<open>main\<close> completes), made of the store with the
  new object in it. When the runner's constructor and \<^verbatim>\<open>run_experiment\<close> leave the
  configuration object as they find it, every call finds it with the attributes it was
  built with, it still has them when \<^verbatim>\<open>main\<close> completes, and the report on disk is the
  report of these attributes.
\<close>

theorem main_hands_one_configuration_to_every_call:
  "\<exists>n\<le>length (arg_experiments args).
      (fst (main R float_repr args w) = Inr () \<longrightarrow> n = length (arg_experiments args)) \<and>
      invoked (snd (main R float_repr args w))
        = invoked w @ map (Pair (next_ref w)) (take n (arg_experiments args)) \<and>
      ((heap (snd (main R float_repr args w)), ext (snd (main R float_repr args w)))
         = (heap w, ext w) \<or>
       (heap (snd (main R float_repr args w)), ext (snd (main R float_repr args w)))
         = foldl (\<lambda>s x. snd (run_experiment R (next_ref w) x s))
             (snd (construct R (next_ref w)
                ((heap w)(next_ref w :=
                    \<lparr>data_path = arg_data_path args, output_dir = arg_output_dir args,
                     num_users = arg_num_users args, temporal_split = arg_temporal_split args,
                     test_days = arg_test_days args, seed = arg_seed args\<rparr>),
                 ext w)))
             (take n (arg_experiments args))) \<and>
      (leaves_configuration R (next_ref w) \<longrightarrow>
         observed (snd (main R float_repr args w))
           = observed w @
             replicate n
               \<lparr>data_path = arg_data_path args, output_dir = arg_output_dir args,
                num_users = arg_num_users args, temporal_split = arg_temporal_split args,
                test_days = arg_test_days args, seed = arg_seed args\<rparr> \<and>
         (fst (main R float_repr args w) = Inr () \<longrightarrow>
            heap (snd (main R float_repr args w)) (next_ref w)
              = \<lparr>data_path = arg_data_path args, output_dir = arg_output_dir args,
                 num_users = arg_num_users args, temporal_split = arg_temporal_split args,
                 test_days = arg_test_days args, seed = arg_seed args\<rparr> \<and>
            (\<exists>results.
               files (fs (snd (main R float_repr args w)))
                   (os_path_join (arg_output_dir args) ''experiment_report.json'')
                 = Some (json_text float_repr 0
                     (report \<lparr>data_path = arg_data_path args, output_dir = arg_output_dir args,
                            num_users = arg_num_users args,
                            temporal_split = arg_temporal_split args,
                            test_days = arg_test_days args, seed = arg_seed args\<rparr>
                        results)))))"
proof -
  let ?attr = "\<lparr>data_path = arg_data_path args, output_dir = arg_output_dir args,
                 num_users = arg_num_users args, temporal_split = arg_temporal_split args,
                 test_days = arg_test_days args, seed = arg_seed args\<rparr>"
  let ?c = "next_ref w"
  let ?xs = "arg_experiments args"
  let ?w1 = "logger_info Starting_application w"
  let ?step = "\<lambda>s x. snd (run_experiment R ?c x s)"
  let ?s0 = "snd (construct R ?c ((heap w)(?c := ?attr), ext w))"
  let ?P = "\<lambda>n out w'.
      n \<le> length ?xs \<and>
      (out = Inr () \<longrightarrow> n = length ?xs) \<and>
      invoked w' = invoked w @ map (Pair ?c) (take n ?xs) \<and>
      ((heap w', ext w') = (heap w, ext w) \<or> (heap w', ext w') = foldl ?step ?s0 (take n ?xs)) \<and>
      (leaves_configuration R ?c \<longrightarrow>
         observed w' = observed w @ replicate n ?attr \<and>
         (out = Inr () \<longrightarrow>
            heap w' ?c = ?attr \<and>
            (\<exists>results.
               files (fs w') (os_path_join (arg_output_dir args) ''experiment_report.json'')
                 = Some (json_text float_repr 0 (report ?attr results)))))"
  have "\<exists>n. ?P n (fst (main R float_repr args w)) (snd (main R float_repr args w))"
  proof (cases "os_makedirs_exist_ok (fs ?w1) (arg_output_dir args)")
    case (Inl e)
    then have m: "main R float_repr args w = (Inl e, ?w1)"
      by (simp add: main_def Let_def)
    have "?P 0 (Inl e) ?w1"
      by (simp add: logger_info_def)
    with m show ?thesis by (metis fst_conv snd_conv)
  next
    case (Inr f)
    let ?w2 = "(?w1\<lparr>fs := f\<rparr>)\<lparr>heap := (heap w)(?c := ?attr), next_ref := Suc ?c\<rparr>"
    let ?w3 = "logger_info (Configuration_is ?attr) ?w2"
    have fc: "ForgettingConfig ?attr (?w1\<lparr>fs := f\<rparr>) = (?c, ?w2)"
      by (simp add: ForgettingConfig_def logger_info_def)
    have w3: "invoked ?w3 = invoked w" "observed ?w3 = observed w"
      "heap ?w3 = (heap w)(?c := ?attr)" "ext ?w3 = ext w"
      by (simp_all add: logger_info_def)
    obtain r4 w4 where run: "run_experiments R ?c ?xs ?w3 = (r4, w4)"
      by (cases "run_experiments R ?c ?xs ?w3")
    from run_experiments_prefix[OF run] obtain n where
      n: "n \<le> length ?xs" "\<not> isl r4 \<longrightarrow> n = length ?xs"
         "invoked w4 = invoked w @ map (Pair ?c) (take n ?xs)"
         "(heap w4, ext w4) = foldl ?step ?s0 (take n ?xs)"
         "leaves_configuration R ?c \<longrightarrow>
            observed w4 = observed w @ replicate n ?attr \<and> heap w4 ?c = ?attr"
      unfolding w3 by auto
    show ?thesis
    proof (cases r4)
      case (Inl e)
      with Inr run fc have m: "main R float_repr args w = (Inl e, w4)"
        by (simp add: main_def Let_def)
      from n have "?P n (Inl e) w4" by simp
      with m show ?thesis by (metis fst_conv snd_conv)
    next
      case r4: (Inr results)
      with n have len: "n = length ?xs" by simp
      obtain r5 w5 where gen: "generate_report float_repr ?c results w4 = (r5, w5)"
        by (cases "generate_report float_repr ?c results w4")
      note s = generate_report_store[OF gen]
      show ?thesis
      proof (cases r5)
        case (Inl e)
        with Inr run r4 gen fc have m: "main R float_repr args w = (Inl e, w5)"
          by (simp add: main_def Let_def)
        from n s have "?P n (Inl e) w5" by simp
        with m show ?thesis by (metis fst_conv snd_conv)
      next
        case r5: (Inr u)
        let ?w6 = "logger_info All_completed w5"
        from Inr run r4 gen r5 fc have m: "main R float_repr args w = (Inr (), ?w6)"
          by (simp add: main_def Let_def)
        from gen r5 have g: "generate_report float_repr ?c results w4 = (Inr u, w5)" by simp
        note written = generate_report_file[OF g]
        have w6: "invoked ?w6 = invoked w5" "observed ?w6 = observed w5" "heap ?w6 = heap w5"
          "ext ?w6 = ext w5" "fs ?w6 = fs w5"
          by (simp_all add: logger_info_def)
        have rep: "leaves_configuration R ?c \<longrightarrow>
            (\<exists>results.
               files (fs ?w6) (os_path_join (arg_output_dir args) ''experiment_report.json'')
                 = Some (json_text float_repr 0 (report ?attr results)))"
        proof
          assume "leaves_configuration R ?c"
          with n(5) have "heap w4 ?c = ?attr" by simp
          with written have
            "files (fs ?w6) (os_path_join (arg_output_dir args) ''experiment_report.json'')
               = Some (json_text float_repr 0 (report ?attr results))"
            by (simp add: w6)
          then show "\<exists>results.
               files (fs ?w6) (os_path_join (arg_output_dir args) ''experiment_report.json'')
                 = Some (json_text float_repr 0 (report ?attr results))" ..
        qed
        from n s rep len have "?P n (Inr ()) ?w6"
          by (simp add: w6)
        with m show ?thesis by (metis fst_conv snd_conv)
      qed
    qed
  qed
  then show ?thesis by blast
qed

theorem main_hands_one_configuration_to_every_call_witness:
  "leaves_configuration obliging_runner 0 \<and>
   fst (main obliging_runner one_second_repr default_args start_world) = Inr () \<and>
   invoked (snd (main obliging_runner one_second_repr default_args start_world))
     = map (Pair 0) (arg_experiments default_args) \<and>
   observed (snd (main obliging_runner one_second_repr default_args start_world))
     = replicate 6 default_config \<and>
   heap (snd (main obliging_runner one_second_repr default_args start_world)) 0
     = default_config \<and>
   (\<exists>results.
      files (fs (snd (main obliging_runner one_second_repr default_args start_world)))
          ''./results/experiment_report.json''
        = Some (json_text one_second_repr 0 (report default_config results)))"
proof -
  let ?main = "main obliging_runner one_second_repr default_args start_world"
  have lc: "leaves_configuration obliging_runner 0"
    by (simp add: leaves_configuration_def obliging_runner_def)
  have f: "fst ?main = Inr ()"
    by (simp add: main_def run_defs obliging_runner_def ForgettingConfig_def
        default_args_def start_world_def empty_disk_def os_makedirs_exist_ok_def ancestors_def
        generate_report_def open_w_def write_close_def os_path_join_def dirname_def rstrip_sep_def
        print_def)
  have c: "\<lparr>data_path = arg_data_path default_args, output_dir = arg_output_dir default_args,
            num_users = arg_num_users default_args,
            temporal_split = arg_temporal_split default_args,
            test_days = arg_test_days default_args, seed = arg_seed default_args\<rparr>
         = default_config"
    by (simp add: default_args_def default_config_def)
  have p: "os_path_join (arg_output_dir default_args) ''experiment_report.json''
         = ''./results/experiment_report.json''"
    by (simp add: default_args_def os_path_join_def)
  have l: "length (arg_experiments default_args) = 6"
    by (simp add: default_args_def)
  have s: "next_ref start_world = 0" "invoked start_world = []" "observed start_world = []"
    by (simp_all add: start_world_def)
  from main_hands_one_configuration_to_every_call
         [where args = default_args and R = obliging_runner and float_repr = one_second_repr
            and w = start_world]
  obtain n where
    n: "fst ?main = Inr () \<longrightarrow> n = 6"
       "invoked (snd ?main) = map (Pair 0) (take n (arg_experiments default_args))"
       "leaves_configuration obliging_runner 0 \<longrightarrow>
          observed (snd ?main) = replicate n default_config \<and>
          (fst ?main = Inr () \<longrightarrow>
             heap (snd ?main) 0 = default_config \<and>
             (\<exists>results.
                files (fs (snd ?main)) ''./results/experiment_report.json''
                  = Some (json_text one_second_repr 0 (report default_config results))))"
    unfolding c p l s append_Nil by blast
  from n(1) f have n6: "n = 6" by simp
  from n(2) have i: "invoked (snd ?main) = map (Pair 0) (arg_experiments default_args)"
    by (simp add: n6 l)
  from n(3) lc f have o: "observed (snd ?main) = replicate 6 default_config"
    and h: "heap (snd ?main) 0 = default_config"
    and r: "\<exists>results.
                files (fs (snd ?main)) ''./results/experiment_report.json''
                  = Some (json_text one_second_repr 0 (report default_config results))"
    unfolding n6 by blast+
  from lc f i o h r show ?thesis
    by (intro conjI)
qed

text \<open>
  C8 as the spec has it fails: nothing in the harness keeps the runner from assigning to
  the configuration object. With a runner whose experiments set \<^verbatim>\<open>config.num_users = 0\<close>,
  a run of two experiments with the default arguments (\<^verbatim>\<open>num_users\<close> 50) completes, the
  first call finds the configuration as it was built, the second finds \<^verbatim>\<open>num_users\<close> 0,
  and the report records \<^verbatim>\<open>num_users\<close> 0.
\<close>

theorem main_hands_one_configuration_to_every_call_counterexample:
  "fst (main meddling_runner one_second_repr
          (default_args\<lparr>arg_experiments := [''baseline_comparison'', ''temporal_evaluation'']\<rparr>)
          start_world) = Inr () \<and>
   arg_num_users
     (default_args\<lparr>arg_experiments := [''baseline_comparison'', ''temporal_evaluation'']\<rparr>) = 50 \<and>
   observed (snd (main meddling_runner one_second_repr
          (default_args\<lparr>arg_experiments := [''baseline_comparison'', ''temporal_evaluation'']\<rparr>)
          start_world))
     = [default_config, default_config\<lparr>num_users := 0\<rparr>] \<and>
   files (fs (snd (main meddling_runner one_second_repr
          (default_args\<lparr>arg_experiments := [''baseline_comparison'', ''temporal_evaluation'']\<rparr>)
          start_world)))
       ''./results/experiment_report.json''
     = Some (json_text one_second_repr 0
         (report (default_config\<lparr>num_users := 0\<rparr>)
            [(''baseline_comparison'', \<lparr>completed = True, duration = 1\<rparr>),
             (''temporal_evaluation'', \<lparr>completed = True, duration = 1\<rparr>)]))"
  by (simp add: main_def run_defs meddling_runner_def ForgettingConfig_def
        default_args_def default_config_def start_world_def empty_disk_def
        os_makedirs_exist_ok_def ancestors_def
        generate_report_def open_w_def write_close_def os_path_join_def dirname_def rstrip_sep_def
        print_def report_def)

end
